theory Spec2Isabelle
  imports Main "HOL-Library.AList"
begin

section \<open>flytekit/core/utils.py: the DNS-label sanitizer\<close>

text \<open>
  A Python \<open>str\<close> is modelled as a \<open>string\<close> whose characters are the code points
  0..255. The character classes below are those of Python's \<open>str.isalnum\<close>,
  \<open>str.islower\<close>, \<open>str.isdigit\<close> and \<open>str.lower\<close> on these code points (ASCII and the
  Latin-1 supplement); code points above 255 are outside the model.
\<close>

definition isalnum :: "char \<Rightarrow> bool" where
  "isalnum ch =
     (let n = (of_char ch :: nat) in
        (48 \<le> n \<and> n \<le> 57) \<or> (65 \<le> n \<and> n \<le> 90) \<or> (97 \<le> n \<and> n \<le> 122) \<or>
        n = 170 \<or> (178 \<le> n \<and> n \<le> 179) \<or> n = 181 \<or> (185 \<le> n \<and> n \<le> 186) \<or>
        (188 \<le> n \<and> n \<le> 190) \<or> (192 \<le> n \<and> n \<le> 214) \<or> (216 \<le> n \<and> n \<le> 246) \<or>
        248 \<le> n)"

definition islower :: "char \<Rightarrow> bool" where
  "islower ch =
     (let n = (of_char ch :: nat) in
        (97 \<le> n \<and> n \<le> 122) \<or> n = 170 \<or> n = 181 \<or> n = 186 \<or>
        (223 \<le> n \<and> n \<le> 246) \<or> 248 \<le> n)"

definition isdigit :: "char \<Rightarrow> bool" where
  "isdigit ch =
     (let n = (of_char ch :: nat) in
        (48 \<le> n \<and> n \<le> 57) \<or> (178 \<le> n \<and> n \<le> 179) \<or> n = 185)"

definition lower :: "char \<Rightarrow> char" where
  "lower ch =
     (let n = (of_char ch :: nat) in
        if (65 \<le> n \<and> n \<le> 90) \<or> (192 \<le> n \<and> n \<le> 214) \<or> (216 \<le> n \<and> n \<le> 222)
        then char_of (n + 32) else ch)"

text \<open>
  One iteration of the loop \<open>for ch in value\<close> of \<open>_dnsify\<close>, on the accumulator
  \<open>res\<close>. The four branches are the source's, in its order.
\<close>

definition dnsify_step :: "string \<Rightarrow> char \<Rightarrow> string" where
  "dnsify_step res ch =
     (if ch = CHR ''_'' \<or> ch = CHR ''-'' \<or> ch = CHR ''.'' then
        (if res \<noteq> [] \<and> length res < 62 then res @ ''-'' else res)
      else if \<not> isalnum ch then res
      else if islower ch \<or> isdigit ch then res @ [ch]
      else
        (if res \<noteq> [] \<and> last res \<noteq> CHR ''-'' \<and> length res < 62 then res @ ''-'' else res)
          @ [lower ch])"

fun dnsify_loop :: "string \<Rightarrow> string \<Rightarrow> string" where
  "dnsify_loop res [] = res"
| "dnsify_loop res (ch # value) = dnsify_loop (dnsify_step res ch) value"

text \<open>
  \<open>_dnsify\<close>. The SHA-224 hex digest of the UTF-8 encoding of the value comes from
  Python's \<open>hashlib\<close>; it is the parameter \<open>sha224_hexdigest\<close>. \<open>MAX = 63\<close>,
  \<open>HASH_LEN = 10\<close>, and \<open>value[-(MAX - HASH_LEN - 1):]\<close> is the last 52 characters.
\<close>

definition dnsify :: "(string \<Rightarrow> string) \<Rightarrow> string \<Rightarrow> string" where
  "dnsify sha224_hexdigest value =
     (let value' =
            (if length value \<ge> 63
             then take 10 (sha224_hexdigest value) @ ''-'' @ drop (length value - 52) value
             else value);
          res = dnsify_loop [] value'
      in if length res > 0 \<and> last res = CHR ''-'' then take (length res - 1) res else res)"

text \<open>The predicates of the sanitizer's contract: the characters of a DNS label.\<close>

definition label_char :: "char \<Rightarrow> bool" where
  "label_char ch =
     (let n = (of_char ch :: nat) in
        (97 \<le> n \<and> n \<le> 122) \<or> (48 \<le> n \<and> n \<le> 57) \<or> ch = CHR ''-'')"

definition dns_label :: "string \<Rightarrow> bool" where
  "dns_label s =
     (list_all label_char s \<and> length s \<le> 63 \<and>
      (s = [] \<or> (hd s \<noteq> CHR ''-'' \<and> last s \<noteq> CHR ''-'')))"

section \<open>Resources and the container descriptor builder\<close>

text \<open>
  Modelled from the spec: \<open>flytekit.core.resources\<close> (\<open>Resources\<close>, \<open>ResourceSpec\<close>,
  \<open>_check_resource_is_singular\<close>) is not part of the sources. The spec: a resource
  specification is a pair of limits and requests, each mapping the resource kinds CPU,
  memory, GPU and ephemeral storage to string-encoded quantities; the check validates
  that each resource dimension is present at most once and fails with a validation
  error otherwise. A dimension is unset, one quantity, or several.
\<close>

datatype quantity = One string | Several "string list"

record resources =
  cpu :: "quantity option"
  mem :: "quantity option"
  gpu :: "quantity option"
  ephemeral_storage :: "quantity option"

record resource_spec =
  spec_requests :: resources
  spec_limits :: resources

text \<open>The resource after the check: every dimension unset or a single quantity.\<close>

record singular_resources =
  s_cpu :: "string option"
  s_mem :: "string option"
  s_gpu :: "string option"
  s_ephemeral_storage :: "string option"

text \<open>
  The exceptions of the model: Python's \<open>ValueError\<close>, \<open>AttributeError\<close> and
  \<open>TypeError\<close>, and an exception \<open>Raised e\<close> of code outside this file.
\<close>

datatype 'e failure = ValueError | AttributeError | TypeError | Raised 'e

text \<open>
  Modelled from the spec: \<open>_check_resource_is_singular\<close> returns the resource when every
  dimension is present at most once and raises the validation error otherwise.
\<close>

fun singular :: "quantity option \<Rightarrow> 'e failure + string option" where
  "singular None = Inr None"
| "singular (Some (One q)) = Inr (Some q)"
| "singular (Some (Several qs)) = Inl ValueError"

definition check_resource_is_singular :: "resources \<Rightarrow> 'e failure + singular_resources" where
  "check_resource_is_singular r =
     (case singular (cpu r) of Inl e \<Rightarrow> Inl e | Inr c \<Rightarrow>
     (case singular (mem r) of Inl e \<Rightarrow> Inl e | Inr m \<Rightarrow>
     (case singular (gpu r) of Inl e \<Rightarrow> Inl e | Inr g \<Rightarrow>
     (case singular (ephemeral_storage r) of Inl e \<Rightarrow> Inl e | Inr s \<Rightarrow>
        Inr \<lparr>s_cpu = c, s_mem = m, s_gpu = g, s_ephemeral_storage = s\<rparr>))))"

text \<open>
  Modelled from the spec: \<open>flytekit.models.task\<close> is not part of the sources. The spec:
  a container descriptor has an image reference, a command, arguments, resource
  requirements as sparse lists of (resource kind, value) entries, an environment
  mapping and an opaque config mapping. The fields are those the source passes to the
  constructors \<open>Container\<close>, \<open>Resources\<close> and \<open>ResourceEntry\<close>; the resource names are the
  values of the enumeration \<open>Resources.ResourceName\<close> of the protocol.
\<close>

datatype resource_name = UNKNOWN | CPU | GPU | MEMORY | STORAGE | EPHEMERAL_STORAGE

record resource_entry =
  re_name :: resource_name
  re_value :: string

record task_resources =
  tr_requests :: "resource_entry list"
  tr_limits :: "resource_entry list"

record 'd container =
  c_image :: string
  c_command :: "string list"
  c_args :: "string list option"
  c_resources :: task_resources
  c_env :: "(string \<times> string) list option"
  c_config :: "(string \<times> string) list"
  c_data_loading_config :: "'d option"

text \<open>
  \<open>if v: entries.append(ResourceEntry(name, v))\<close>: an entry is appended when the
  quantity is true in Python's sense, that is neither \<open>None\<close> nor the empty string.
\<close>

fun entry :: "resource_name \<Rightarrow> string option \<Rightarrow> resource_entry list" where
  "entry n None = []"
| "entry n (Some v) = (if v \<noteq> [] then [\<lparr>re_name = n, re_value = v\<rparr>] else [])"

definition entries_of :: "singular_resources \<Rightarrow> resource_entry list" where
  "entries_of r =
     entry EPHEMERAL_STORAGE (s_ephemeral_storage r) @ entry CPU (s_cpu r) @
     entry GPU (s_gpu r) @ entry MEMORY (s_mem r)"

definition get_container_definition ::
  "string \<Rightarrow> resource_spec \<Rightarrow> string list \<Rightarrow> string list option \<Rightarrow> 'd option \<Rightarrow>
   (string \<times> string) list option \<Rightarrow> 'e failure + 'd container" where
  "get_container_definition image' resource_spec command args data_loading_config environment =
     (case check_resource_is_singular (spec_limits resource_spec) of
        Inl e \<Rightarrow> Inl e
      | Inr limits \<Rightarrow>
         (case check_resource_is_singular (spec_requests resource_spec) of
            Inl e \<Rightarrow> Inl e
          | Inr requests \<Rightarrow>
              Inr \<lparr>c_image = image', c_command = command, c_args = args,
                   c_resources =
                     \<lparr>tr_requests = entries_of requests, tr_limits = entries_of limits\<rparr>,
                   c_env = Some (case environment of None \<Rightarrow> [] | Some e \<Rightarrow> e),
                   c_config = [], c_data_loading_config = data_loading_config\<rparr>))"

section \<open>The pod-spec serializer on an object store\<close>

text \<open>
  \<open>_serialize_pod_spec\<close> deep-copies the template and then assigns to attributes of
  the copy's containers, appends to the copy's container list and replaces the list of
  the copy's pod spec. The objects it can reach are kept in a store: an address is an
  index into the list of objects, allocation appends an object, an attribute assignment
  replaces the object at its address. Strings, commands, arguments, resource
  requirements and environment variables are never assigned to in place, so they are
  values inside the container object.

  The classes are those of the Kubernetes client (\<open>V1PodSpec\<close>, \<open>V1Container\<close>,
  \<open>V1ResourceRequirements\<close>, \<open>V1EnvVar\<close>) and \<open>flytekit.core.pod_template.PodTemplate\<close>
  (a pod spec or \<open>None\<close>, and the name of the primary container), with the attributes
  the function reads or writes; none of them is part of the sources.
\<close>

type_synonym addr = nat

record v1_env_var =
  ev_name :: string
  ev_value :: "string option"

record v1_resource_requirements =
  rr_limits :: "(string \<times> string) list option"
  rr_requests :: "(string \<times> string) list option"

record v1_container =
  vc_name :: string
  vc_image :: "string option"
  vc_command :: "string list option"
  vc_args :: "string list option"
  vc_resources :: "v1_resource_requirements option"
  vc_env :: "v1_env_var list option"

datatype obj =
    PodTemplate "addr option" string
  | V1PodSpec addr
  | PyList "addr list"
  | V1Container v1_container

type_synonym store = "obj list"

definition lookup :: "store \<Rightarrow> addr \<Rightarrow> obj option" where
  "lookup h a = (if a < length h then Some (h ! a) else None)"

text \<open>
  Reading an object as an instance of the class the code expects. \<open>None\<close> says that the
  object is of another class (or that the address is dangling, which no Python store
  has); the caller turns it into the exception that Python raises there.
\<close>

definition get_template :: "store \<Rightarrow> addr \<Rightarrow> (addr option \<times> string) option" where
  "get_template h a =
     (case lookup h a of Some (PodTemplate ps nm) \<Rightarrow> Some (ps, nm) | _ \<Rightarrow> None)"

definition get_pod_spec :: "store \<Rightarrow> addr \<Rightarrow> addr option" where
  "get_pod_spec h a = (case lookup h a of Some (V1PodSpec l) \<Rightarrow> Some l | _ \<Rightarrow> None)"

definition get_list :: "store \<Rightarrow> addr \<Rightarrow> addr list option" where
  "get_list h a = (case lookup h a of Some (PyList xs) \<Rightarrow> Some xs | _ \<Rightarrow> None)"

definition get_container :: "store \<Rightarrow> addr \<Rightarrow> v1_container option" where
  "get_container h a = (case lookup h a of Some (V1Container c) \<Rightarrow> Some c | _ \<Rightarrow> None)"

text \<open>
  \<open>copy.deepcopy\<close> on the elements of the container list. The memo maps an original to
  its copy, so an object that the list holds twice is copied once, as Python's memo
  dictionary does. An element that is no container is copied as well: the code reads
  nothing of it before \<open>container.name\<close> raises on it, so the model copies the object
  alone and not what it refers to. \<open>None\<close> is returned for a dangling address only.
\<close>

fun copy_containers ::
  "store \<Rightarrow> (addr \<times> addr) list \<Rightarrow> addr list \<Rightarrow> (store \<times> (addr \<times> addr) list \<times> addr list) option" where
  "copy_containers h memo [] = Some (h, memo, [])"
| "copy_containers h memo (a # as) =
     (case map_of memo a of
        Some b \<Rightarrow>
          (case copy_containers h memo as of
             None \<Rightarrow> None
           | Some (h', memo', bs) \<Rightarrow> Some (h', memo', b # bs))
      | None \<Rightarrow>
          (case lookup h a of
             None \<Rightarrow> None
           | Some ob \<Rightarrow>
               (case copy_containers (h @ [ob]) ((a, length h) # memo) as of
                  None \<Rightarrow> None
                | Some (h', memo', bs) \<Rightarrow> Some (h', memo', length h # bs))))"

text \<open>
  \<open>copy.deepcopy(pod_template)\<close> for a template with a pod spec: the elements of the
  container list, the list, the pod spec and the template are allocated anew; the
  result is the store and the address of the new template. Python copies any object;
  where the pod spec or its container list is not of the class the code expects, the
  result is the exception that the code raises at its first read after the copy:
  \<open>AttributeError\<close> for \<open>pod_spec.containers\<close> on an object that is no pod spec,
  \<open>TypeError\<close> for \<open>for container in containers\<close> over an object that is no list. The
  objects copied before that exception are left out of the store: no reference to them
  remains.
\<close>

definition deepcopy :: "store \<Rightarrow> addr \<Rightarrow> 'e failure + store \<times> addr" where
  "deepcopy h t =
     (case get_template h t of
        Some (Some ps, nm) \<Rightarrow>
          (case get_pod_spec h ps of
             None \<Rightarrow> Inl AttributeError
           | Some l \<Rightarrow>
               (case get_list h l of
                  None \<Rightarrow> Inl TypeError
                | Some as \<Rightarrow>
                    (case copy_containers h [] as of
                       None \<Rightarrow> Inl AttributeError
                     | Some (h', memo, bs) \<Rightarrow>
                         Inr (h' @ [PyList bs, V1PodSpec (length h'),
                                    PodTemplate (Some (length h' + 1)) nm],
                              length h' + 2))))
      | _ \<Rightarrow> Inl AttributeError)"

text \<open>
  \<open>_sanitize_resource_name\<close>: the name of the enumeration value, in lower case, with
  \<open>_\<close> replaced by \<open>-\<close>.
\<close>

fun sanitize_resource_name :: "resource_entry \<Rightarrow> string" where
  "sanitize_resource_name r =
     (case re_name r of
        UNKNOWN \<Rightarrow> ''unknown'' | CPU \<Rightarrow> ''cpu'' | GPU \<Rightarrow> ''gpu'' | MEMORY \<Rightarrow> ''memory''
      | STORAGE \<Rightarrow> ''storage'' | EPHEMERAL_STORAGE \<Rightarrow> ''ephemeral-storage'')"

text \<open>
  \<open>for resource in entries: d[_sanitize_resource_name(resource)] = resource.value\<close> on
  an insertion-ordered dictionary.
\<close>

fun resource_dict :: "resource_entry list \<Rightarrow> (string \<times> string) list \<Rightarrow> (string \<times> string) list" where
  "resource_dict [] d = d"
| "resource_dict (r # rs) d =
     resource_dict rs (AList.update (sanitize_resource_name r) (re_value r) d)"

text \<open>
  \<open>flytekit.configuration.SerializationSettings\<close>: the function reads \<open>image_config\<close>
  only, and only to pass it to the image resolution.
\<close>

record 'cfg serialization_settings =
  image_config :: 'cfg

text \<open>
  The body of the second loop for one container. \<open>get_registerable_container_image\<close>
  (\<open>flytekit.core.python_auto_container\<close>) is the parameter \<open>resolve\<close>: it takes the
  declared image, which may be \<open>None\<close>, and the image configuration, and returns an
  image or raises. It is called before the first assignment, so a container is
  unchanged when it raises.
\<close>

definition merge_container ::
  "(string option \<Rightarrow> 'cfg \<Rightarrow> 'e + string) \<Rightarrow> 'cfg serialization_settings \<Rightarrow> 'd container \<Rightarrow>
   string \<Rightarrow> v1_container \<Rightarrow> 'e + v1_container" where
  "merge_container resolve settings primary_container primary_container_name c =
     (if vc_name c = primary_container_name then
        (case (case vc_image c of
                 None \<Rightarrow> Inr (c_image primary_container)
               | Some img \<Rightarrow> resolve (Some img) (image_config settings)) of
           Inl e \<Rightarrow> Inl e
         | Inr img' \<Rightarrow>
             (let limits = resource_dict (tr_limits (c_resources primary_container)) [];
                  requests = resource_dict (tr_requests (c_resources primary_container)) [];
                  c1 = c\<lparr>vc_image := Some img',
                         vc_command := Some (c_command primary_container),
                         vc_args := c_args primary_container\<rparr>;
                  c2 = (if length limits > 0 \<or> length requests > 0
                        then c1\<lparr>vc_resources :=
                                  Some \<lparr>rr_limits = Some limits, rr_requests = Some requests\<rparr>\<rparr>
                        else c1);
                  c3 = (case c_env primary_container of
                          None \<Rightarrow> c2
                        | Some e \<Rightarrow>
                            c2\<lparr>vc_env :=
                                 Some (map (\<lambda>(key, val). \<lparr>ev_name = key, ev_value = Some val\<rparr>) e
                                       @ (case vc_env c of None \<Rightarrow> [] | Some vs \<Rightarrow> vs))\<rparr>)
              in Inr c3))
      else
        (case resolve (vc_image c) (image_config settings) of
           Inl e \<Rightarrow> Inl e
         | Inr img' \<Rightarrow> Inr (c\<lparr>vc_image := Some img'\<rparr>)))"

text \<open>
  The first loop: is there a container named \<open>primary_container_name\<close>? It stops at
  the first one.
\<close>

fun primary_exists :: "store \<Rightarrow> string \<Rightarrow> addr list \<Rightarrow> bool option" where
  "primary_exists h nm [] = Some False"
| "primary_exists h nm (a # as) =
     (case get_container h a of
        None \<Rightarrow> None
      | Some c \<Rightarrow> if vc_name c = nm then Some True else primary_exists h nm as)"

text \<open>
  The second loop, over the addresses of the containers: the container object is
  assigned to in place and its address is appended to the list \<open>final_containers\<close>,
  which lives at the address \<open>final\<close>.
\<close>

fun merge_loop ::
  "(string option \<Rightarrow> 'cfg \<Rightarrow> 'e + string) \<Rightarrow> 'cfg serialization_settings \<Rightarrow> 'd container \<Rightarrow>
   string \<Rightarrow> addr \<Rightarrow> addr list \<Rightarrow> store \<Rightarrow> store \<times> ('e failure + unit)" where
  "merge_loop resolve settings pc nm final [] h = (h, Inr ())"
| "merge_loop resolve settings pc nm final (a # as) h =
     (case get_container h a of
        None \<Rightarrow> (h, Inl AttributeError)
      | Some c \<Rightarrow>
          (case merge_container resolve settings pc nm c of
             Inl e \<Rightarrow> (h, Inl (Raised e))
           | Inr c' \<Rightarrow>
               (case get_list (h[a := V1Container c']) final of
                  None \<Rightarrow> (h[a := V1Container c'], Inl AttributeError)
                | Some fs \<Rightarrow>
                    merge_loop resolve settings pc nm final as
                      (h[a := V1Container c', final := PyList (fs @ [a])]))))"

text \<open>
  The result of \<open>ApiClient().sanitize_for_serialization\<close>: strings, lists and
  dictionaries. An attribute that is \<open>None\<close> has no key in the dictionary of its object;
  the keys are those of the client's attribute maps.
\<close>

datatype json = JStr string | JList "json list" | JDict "(string \<times> json) list"

fun attr :: "string \<Rightarrow> json option \<Rightarrow> (string \<times> json) list" where
  "attr k None = []"
| "attr k (Some v) = [(k, v)]"

definition sanitize_str_list :: "string list \<Rightarrow> json" where
  "sanitize_str_list xs = JList (map JStr xs)"

definition sanitize_str_dict :: "(string \<times> string) list \<Rightarrow> json" where
  "sanitize_str_dict d = JDict (map (\<lambda>(k, v). (k, JStr v)) d)"

definition sanitize_env_var :: "v1_env_var \<Rightarrow> json" where
  "sanitize_env_var v =
     JDict ([(''name'', JStr (ev_name v))] @ attr ''value'' (map_option JStr (ev_value v)))"

definition sanitize_resource_requirements :: "v1_resource_requirements \<Rightarrow> json" where
  "sanitize_resource_requirements r =
     JDict (attr ''limits'' (map_option sanitize_str_dict (rr_limits r)) @
            attr ''requests'' (map_option sanitize_str_dict (rr_requests r)))"

definition sanitize_container :: "v1_container \<Rightarrow> json" where
  "sanitize_container c =
     JDict (attr ''args'' (map_option sanitize_str_list (vc_args c)) @
            attr ''command'' (map_option sanitize_str_list (vc_command c)) @
            attr ''env'' (map_option (\<lambda>vs. JList (map sanitize_env_var vs)) (vc_env c)) @
            attr ''image'' (map_option JStr (vc_image c)) @
            [(''name'', JStr (vc_name c))] @
            attr ''resources'' (map_option sanitize_resource_requirements (vc_resources c)))"

fun get_containers :: "store \<Rightarrow> addr list \<Rightarrow> v1_container list option" where
  "get_containers h [] = Some []"
| "get_containers h (a # as) =
     (case get_container h a of
        None \<Rightarrow> None
      | Some c \<Rightarrow> (case get_containers h as of None \<Rightarrow> None | Some cs \<Rightarrow> Some (c # cs)))"

definition sanitize_for_serialization :: "store \<Rightarrow> addr \<Rightarrow> 'e failure + json" where
  "sanitize_for_serialization h ps =
     (case get_pod_spec h ps of
        None \<Rightarrow> Inl AttributeError
      | Some l \<Rightarrow>
          (case get_list h l of
             None \<Rightarrow> Inl TypeError
           | Some as \<Rightarrow>
               (case get_containers h as of
                  None \<Rightarrow> Inl AttributeError
                | Some cs \<Rightarrow> Inr (JDict [(''containers'', JList (map sanitize_container cs))]))))"

text \<open>\<open>V1Container(name=primary_container_name)\<close>: every other attribute is \<open>None\<close>.\<close>

definition placeholder :: "string \<Rightarrow> v1_container" where
  "placeholder nm =
     \<lparr>vc_name = nm, vc_image = None, vc_command = None, vc_args = None,
      vc_resources = None, vc_env = None\<rparr>"

text \<open>
  \<open>_serialize_pod_spec\<close> after \<open>copy.deepcopy\<close>: \<open>t\<close> is the address of the copy. The
  placeholder is allocated at the first free address and appended to the copy's list.
\<close>

definition serialize_copy ::
  "(string option \<Rightarrow> 'cfg \<Rightarrow> 'e + string) \<Rightarrow> 'cfg serialization_settings \<Rightarrow> 'd container \<Rightarrow>
   store \<Rightarrow> addr \<Rightarrow> store \<times> ('e failure + json)" where
  "serialize_copy resolve settings primary_container h t =
     (case get_template h t of
        Some (Some ps, nm) \<Rightarrow>
          (case get_pod_spec h ps of
             None \<Rightarrow> (h, Inl AttributeError)
           | Some l \<Rightarrow>
               (case get_list h l of
                  None \<Rightarrow> (h, Inl TypeError)
                | Some containers \<Rightarrow>
                    (case primary_exists h nm containers of
                       None \<Rightarrow> (h, Inl AttributeError)
                     | Some found \<Rightarrow>
                         (let containers' = (if found then containers else containers @ [length h]);
                              h1 = (if found then h
                                    else h[l := PyList containers'] @ [V1Container (placeholder nm)]);
                              final = length h1;
                              h2 = h1 @ [PyList []]
                          in case merge_loop resolve settings primary_container nm final containers' h2 of
                               (h3, Inl e) \<Rightarrow> (h3, Inl e)
                             | (h3, Inr u) \<Rightarrow>
                                 (let h4 = h3[ps := V1PodSpec final]
                                  in (h4, sanitize_for_serialization h4 ps))))))
      | _ \<Rightarrow> (h, Inl AttributeError))"

text \<open>
  \<open>_serialize_pod_spec\<close>: the store after the call and the returned mapping, or the
  exception raised. \<open>{}\<close> is the empty dictionary.
\<close>

definition serialize_pod_spec ::
  "(string option \<Rightarrow> 'cfg \<Rightarrow> 'e + string) \<Rightarrow> store \<Rightarrow> addr \<Rightarrow> 'd container \<Rightarrow>
   'cfg serialization_settings \<Rightarrow> store \<times> ('e failure + json)" where
  "serialize_pod_spec resolve h pod_template primary_container settings =
     (case get_template h pod_template of
        None \<Rightarrow> (h, Inl AttributeError)
      | Some (None, nm) \<Rightarrow> (h, Inr (JDict []))
      | Some (Some ps, nm) \<Rightarrow>
          (case deepcopy h pod_template of
             Inl e \<Rightarrow> (h, Inl e)
           | Inr (h', t') \<Rightarrow> serialize_copy resolve settings primary_container h' t'))"

section \<open>The timing context manager\<close>

text \<open>
  The world \<open>timeit\<close> acts on: the three clocks it reads
  (\<open>datetime.datetime.now\<close>, \<open>time.perf_counter\<close>, \<open>time.process_time\<close>), the time
  line of the current context and the lines given to \<open>logger.info\<close>. Dates have the type
  \<open>'d\<close>, clock readings the type \<open>'t\<close> with a subtraction.
\<close>

record ('d, 't) time_info =
  Name :: string
  Start :: "'d option"
  Finish :: 'd
  WallTime :: 't
  ProcessTime :: 't

record ('d, 't) world =
  clock_now :: 'd
  clock_perf_counter :: 't
  clock_process_time :: 't
  timeline_deck :: "('d, 't) time_info list"
  logger_info :: "(string \<times> 't) list"

text \<open>
  Modelled from the spec: \<open>FlyteContextManager\<close> and the time line deck are not part of
  the sources. The spec: the record is appended to a process-wide, context-scoped,
  append-only timeline log.
\<close>

definition append_time_info :: "('d, 't) time_info \<Rightarrow> ('d, 't) world \<Rightarrow> ('d, 't) world" where
  "append_time_info info w = w\<lparr>timeline_deck := timeline_deck w @ [info]\<rparr>"

text \<open>The attributes of a \<open>timeit\<close> object; \<open>__init__\<close> sets the three readings to \<open>None\<close>.\<close>

record ('d, 't) timeit =
  name :: string
  start_time :: "'d option"
  start_wall_time :: "'t option"
  start_process_time :: "'t option"

definition timeit_init :: "string \<Rightarrow> ('d, 't) timeit" where
  "timeit_init name' =
     \<lparr>name = name', start_time = None, start_wall_time = None, start_process_time = None\<rparr>"

text \<open>\<open>__enter__\<close> assigns the three readings to the attributes of the object and returns it.\<close>

definition timeit_enter :: "('d, 't) timeit \<Rightarrow> ('d, 't) world \<Rightarrow> ('d, 't) timeit" where
  "timeit_enter self w =
     self\<lparr>start_time := Some (clock_now w),
          start_wall_time := Some (clock_perf_counter w),
          start_process_time := Some (clock_process_time w)\<rparr>"

text \<open>
  \<open>__exit__\<close>: the world after it and what it returns, or the exception it raises. It
  reads the attributes of the object as they are when the scope is left. The
  subtraction of a reading that is \<open>None\<close> is Python's \<open>TypeError\<close>, raised while the
  arguments of \<open>append_time_info\<close> are evaluated. The method ends without a \<open>return\<close>,
  so it returns \<open>None\<close>, which is false: the result \<open>False\<close> says that the exception
  passed in is not suppressed.
\<close>

definition timeit_exit ::
  "('d, 't::minus) timeit \<Rightarrow> 'x failure option \<Rightarrow> ('d, 't) world \<Rightarrow>
   ('x failure + bool) \<times> ('d, 't) world" where
  "timeit_exit self exc w =
     (case (start_wall_time self, start_process_time self) of
        (Some sw, Some sp) \<Rightarrow>
          (let end_time = clock_now w;
               end_wall_time = clock_perf_counter w;
               end_process_time = clock_process_time w;
               w1 = append_time_info
                      \<lparr>Name = name self, Start = start_time self, Finish = end_time,
                       WallTime = end_wall_time - sw,
                       ProcessTime = end_process_time - sp\<rparr> w;
               w2 = w1\<lparr>logger_info := logger_info w1 @ [(name self, end_wall_time - sw)]\<rparr>
           in (Inr False, w2))
      | _ \<Rightarrow> (Inl TypeError, w))"

text \<open>
  Python's \<open>with self: body\<close>. The state is the \<open>timeit\<close> object and the world. The
  wrapped code is a function on this state: it may advance the clocks, append to the
  time line, and, since \<open>__enter__\<close> returns the object and a decorator enters the same
  object on every call, assign to the attributes of the object (a nested or recursive
  scope on the same object does). \<open>__exit__\<close> runs on both ways out of the body, on the
  object as the body left it. After an exception of the body, the exception is raised
  again unless \<open>__exit__\<close> returned a true value; an exception of \<open>__exit__\<close> itself
  replaces it. The result \<open>Inr (Some v)\<close> is the body's value, \<open>Inr None\<close> a suppressed
  exception.
\<close>

definition timeit_with ::
  "(('d, 't::minus) timeit \<times> ('d, 't) world \<Rightarrow>
      ('x failure + 'a) \<times> ('d, 't) timeit \<times> ('d, 't) world) \<Rightarrow>
   ('d, 't) timeit \<times> ('d, 't) world \<Rightarrow>
   ('x failure + 'a option) \<times> ('d, 't) timeit \<times> ('d, 't) world" where
  "timeit_with body s =
     (case s of (self, w) \<Rightarrow>
        (case body (timeit_enter self w, w) of
           (Inr v, self', w1) \<Rightarrow>
             (case timeit_exit self' None w1 of
                (Inl e', w2) \<Rightarrow> (Inl e', self', w2)
              | (Inr suppress, w2) \<Rightarrow> (Inr (Some v), self', w2))
         | (Inl e, self', w1) \<Rightarrow>
             (case timeit_exit self' (Some e) w1 of
                (Inl e', w2) \<Rightarrow> (Inl e', self', w2)
              | (Inr suppress, w2) \<Rightarrow>
                  if suppress then (Inr None, self', w2) else (Inl e, self', w2))))"

text \<open>
  \<open>__call__\<close>: the decorated function is \<open>wrapper\<close>, which runs \<open>func(*args, **kwargs)\<close>
  inside \<open>with self\<close> and returns its value.
\<close>

definition timeit_call ::
  "('args \<Rightarrow> ('d, 't::minus) timeit \<times> ('d, 't) world \<Rightarrow>
      ('x failure + 'a) \<times> ('d, 't) timeit \<times> ('d, 't) world) \<Rightarrow>
   'args \<Rightarrow> ('d, 't) timeit \<times> ('d, 't) world \<Rightarrow>
   ('x failure + 'a option) \<times> ('d, 't) timeit \<times> ('d, 't) world" where
  "timeit_call func args' s = timeit_with (func args') s"

text \<open>What a body's result becomes when it passes through the scope unchanged.\<close>

fun propagated :: "'x failure + 'a \<Rightarrow> 'x failure + 'a option" where
  "propagated (Inl e) = Inl e"
| "propagated (Inr v) = Inr (Some v)"

text \<open>
  A world with an empty time line, and three wrapped blocks: one that lets the clocks
  advance and raises; one that lets the clocks advance and enters the same object
  again around the first, as a recursive call of a decorated function does; and one
  that sets a start reading of the object to \<open>None\<close> and raises.
\<close>

definition example_world :: "(nat, int) world" where
  "example_world =
     \<lparr>clock_now = 0, clock_perf_counter = 10, clock_process_time = 3, timeline_deck = [],
      logger_info = []\<rparr>"

definition example_failing ::
  "(nat, int) timeit \<times> (nat, int) world \<Rightarrow>
   (string failure + unit) \<times> (nat, int) timeit \<times> (nat, int) world" where
  "example_failing s =
     (Inl (Raised ''boom''), fst s, (snd s)\<lparr>clock_now := 5, clock_perf_counter := 17\<rparr>)"

definition example_recursive ::
  "(nat, int) timeit \<times> (nat, int) world \<Rightarrow>
   (string failure + unit option) \<times> (nat, int) timeit \<times> (nat, int) world" where
  "example_recursive s =
     timeit_with example_failing (fst s, (snd s)\<lparr>clock_now := 1, clock_perf_counter := 11\<rparr>)"

definition example_resetting ::
  "(nat, int) timeit \<times> (nat, int) world \<Rightarrow>
   (string failure + unit) \<times> (nat, int) timeit \<times> (nat, int) world" where
  "example_resetting s = (Inl (Raised ''boom''), (fst s)\<lparr>start_wall_time := None\<rparr>, snd s)"

section \<open>Reading the serialized pod spec\<close>

text \<open>The value under a key of a dictionary, and the list under \<open>containers\<close>.\<close>

fun json_lookup :: "json \<Rightarrow> string \<Rightarrow> json option" where
  "json_lookup (JDict d) k = map_of d k"
| "json_lookup (JStr s) k = None"
| "json_lookup (JList xs) k = None"

definition output_containers :: "json \<Rightarrow> json list" where
  "output_containers out =
     (case json_lookup out ''containers'' of Some (JList cs) \<Rightarrow> cs | _ \<Rightarrow> [])"

section \<open>Auxiliary definitions\<close>

text \<open>The invariant of the memo while the containers are copied.\<close>

definition memo_inv :: "nat \<Rightarrow> store \<Rightarrow> (addr \<times> addr) list \<Rightarrow> bool" where
  "memo_inv n h memo =
     (distinct (map snd memo) \<and>
      (\<forall>(a, b) \<in> set memo. a < b \<and> n \<le> b \<and> b < length h \<and> h ! b = h ! a))"

text \<open>
  A store with three templates: at address 3 a template whose primary container declares
  an image, at address 7 a template without a container named \<open>primary\<close>, at address
  8 a template without a pod spec. The image resolution of the example puts the
  configured registry before the declared image.
\<close>

definition example_container :: v1_container where
  "example_container =
     \<lparr>vc_name = ''primary'', vc_image = Some ''img'', vc_command = None, vc_args = None,
      vc_resources = None, vc_env = None\<rparr>"

definition example_sidecar :: v1_container where
  "example_sidecar =
     \<lparr>vc_name = ''sidecar'', vc_image = Some ''envoy'', vc_command = None, vc_args = None,
      vc_resources = None, vc_env = None\<rparr>"

definition example_store :: store where
  "example_store =
     [V1Container example_container, PyList [0], V1PodSpec 1, PodTemplate (Some 2) ''primary'',
      V1Container example_sidecar, PyList [4], V1PodSpec 5, PodTemplate (Some 6) ''primary'',
      PodTemplate None ''primary'']"

definition example_primary :: "unit container" where
  "example_primary =
     \<lparr>c_image = ''computed'', c_command = [''run''], c_args = None,
      c_resources = \<lparr>tr_requests = [], tr_limits = []\<rparr>, c_env = None, c_config = [],
      c_data_loading_config = None\<rparr>"

definition example_resolve :: "string option \<Rightarrow> string \<Rightarrow> unit + string" where
  "example_resolve img cfg = (case img of None \<Rightarrow> Inr cfg | Some s \<Rightarrow> Inr (cfg @ s))"

definition example_settings :: "string serialization_settings" where
  "example_settings = \<lparr>image_config = ''registry/''\<rparr>"

section \<open>The sanitizer on concrete inputs\<close>

lemma dnsify_short:
  "length value < 63 \<Longrightarrow>
   dnsify h value =
     (let res = dnsify_loop [] value
      in if length res > 0 \<and> last res = CHR ''-'' then take (length res - 1) res else res)"
  by (simp add: dnsify_def)

text \<open>The example of the specification.\<close>

lemma dnsify_example: "dnsify h ''My_Task.Name'' = ''my-task-name''"
  by code_simp

subsection \<open>What the loop guarantees\<close>

lemma hyphen_not_alnum: "\<not> isalnum (CHR ''-'')"
  by (simp add: isalnum_def)

lemma lower_not_hyphen: "isalnum ch \<Longrightarrow> lower ch \<noteq> CHR ''-''"
proof -
  assume a: "isalnum ch"
  have "(of_char (lower ch) :: nat) \<noteq> 45"
  proof (cases "(65 \<le> (of_char ch :: nat) \<and> (of_char ch :: nat) \<le> 90) \<or>
      (192 \<le> (of_char ch :: nat) \<and> (of_char ch :: nat) \<le> 214) \<or>
      (216 \<le> (of_char ch :: nat) \<and> (of_char ch :: nat) \<le> 222)")
    case True
    then have "lower ch = char_of ((of_char ch :: nat) + 32)"
      by (simp add: lower_def Let_def)
    moreover have "(of_char ch :: nat) + 32 < 256"
      using True by auto
    ultimately have "(of_char (lower ch) :: nat) = of_char ch + 32"
      by simp
    with True show ?thesis by auto
  next
    case False
    have "lower ch = ch"
      unfolding lower_def Let_def by (rule if_not_P [OF False])
    with a show ?thesis
      by (auto simp: isalnum_def Let_def)
  qed
  then show ?thesis
    by auto
qed

text \<open>The accumulator never starts with a hyphen.\<close>

lemma dnsify_step_hd:
  "res = [] \<or> hd res \<noteq> CHR ''-'' \<Longrightarrow>
   dnsify_step res ch = [] \<or> hd (dnsify_step res ch) \<noteq> CHR ''-''"
  using lower_not_hyphen [of ch] hyphen_not_alnum
  by (cases "res = []") (auto simp: dnsify_step_def)

lemma dnsify_loop_hd:
  "res = [] \<or> hd res \<noteq> CHR ''-'' \<Longrightarrow>
   dnsify_loop res value = [] \<or> hd (dnsify_loop res value) \<noteq> CHR ''-''"
proof (induction "value" arbitrary: res)
  case Nil
  then show ?case by simp
next
  case (Cons ch "value")
  from Cons.IH [OF dnsify_step_hd [OF Cons.prems]] show ?case
    by simp
qed

lemma dnsify_never_starts_with_hyphen:
  "dnsify sha224_hexdigest value = [] \<or> hd (dnsify sha224_hexdigest value) \<noteq> CHR ''-''"
proof -
  have "xs = [] \<or> hd xs \<noteq> CHR ''-'' \<Longrightarrow>
        take (length xs - 1) xs = [] \<or> hd (take (length xs - 1) xs) \<noteq> CHR ''-''" for xs :: string
    by (cases xs) (auto simp: take_Cons')
  with dnsify_loop_hd [of "[]"] show ?thesis
    by (auto simp: dnsify_def Let_def)
qed

subsection \<open>Where the sanitizer leaves its contract\<close>

text \<open>
  C1. The contract says every output is a DNS label of at most 63 characters that does
  not end with a hyphen. On the 62 upper-case letters \<open>A...A\<close> the code returns 93
  characters: the cap of 62 guards only the inserted hyphens, never the letters.
\<close>

theorem dnsify_exceeds_63:
  "length (dnsify h (replicate 62 (CHR ''A''))) = 93
   \<and> \<not> dns_label (dnsify h (replicate 62 (CHR ''A'')))"
proof -
  have len: "length (dnsify h (replicate 62 (CHR ''A''))) = 93"
    by code_simp
  then show ?thesis
    by (simp add: dns_label_def)
qed

text \<open>
  C2. On \<open>a__\<close>, a string of letters and separators shorter than 63 characters, the
  output is \<open>a-\<close>: the second separator adds a second hyphen and only one trailing hyphen
  is stripped, so the output ends with a hyphen.
\<close>

theorem dnsify_trailing_hyphen:
  "dnsify h ''a__'' = ''a-'' \<and> last (dnsify h ''a__'') = CHR ''-''"
  by (simp add: dnsify_short dnsify_step_def isalnum_def islower_def isdigit_def lower_def)

text \<open>
  C3. Sanitizing \<open>a__\<close> twice gives \<open>a\<close>, sanitizing it once gives \<open>a-\<close>: the
  sanitizer is not idempotent on this input.
\<close>

theorem dnsify_not_idempotent:
  "dnsify h (dnsify h ''a__'') = ''a'' \<and> dnsify h ''a__'' = ''a-''
   \<and> dnsify h (dnsify h ''a__'') \<noteq> dnsify h ''a__''"
  by (simp add: dnsify_short dnsify_step_def isalnum_def islower_def isdigit_def lower_def)

subsection \<open>Separators in the pass\<close>

text \<open>
  C4, as stated, fails: a run of separators is not collapsed, and a separator's hyphen
  is appended although the output already ends in a hyphen. The step on the output
  \<open>a-\<close> with the separator \<open>_\<close> gives \<open>a--\<close>, and the pass over \<open>a__b\<close> gives \<open>a--b\<close>.
\<close>

theorem dnsify_run_not_collapsed:
  "dnsify_step ''a-'' (CHR ''_'') = ''a--'' \<and> dnsify_loop [] ''a__b'' = ''a--b''"
  by (simp add: dnsify_step_def isalnum_def islower_def isdigit_def lower_def)

text \<open>
  C4, amended. In the left-to-right pass, a separator (\<open>_\<close>, \<open>-\<close> or \<open>.\<close>) appends one
  hyphen to the output, and this hyphen is suppressed when it would be the first
  character of the output or when the output has reached 62 characters; the pass then
  goes on with the rest of the input.
\<close>

theorem dnsify_separator_hyphen:
  assumes "ch = CHR ''_'' \<or> ch = CHR ''-'' \<or> ch = CHR ''.''"
  shows "dnsify_step res ch = (if res = [] \<or> 62 \<le> length res then res else res @ ''-'') \<and>
         dnsify_loop res (ch # value) =
           dnsify_loop (if res = [] \<or> 62 \<le> length res then res else res @ ''-'') value"
  using assms by (auto simp: dnsify_step_def)

theorem dnsify_separator_hyphen_witness:
  "dnsify_step [] (CHR ''_'') = [] \<and>
   dnsify_step ''a'' (CHR ''.'') = ''a-'' \<and>
   dnsify_step (replicate 62 (CHR ''a'')) (CHR ''-'') = replicate 62 (CHR ''a'') \<and>
   dnsify_loop ''a'' ''.b'' = ''a-b''"
proof -
  have sep: "CHR ''_'' = CHR ''_'' \<or> CHR ''_'' = CHR ''-'' \<or> CHR ''_'' = CHR ''.''"
    "CHR ''.'' = CHR ''_'' \<or> CHR ''.'' = CHR ''-'' \<or> CHR ''.'' = CHR ''.''"
    "CHR ''-'' = CHR ''_'' \<or> CHR ''-'' = CHR ''-'' \<or> CHR ''-'' = CHR ''.''"
    by simp_all
  have b: "dnsify_loop ''a-'' ''b'' = ''a-b''"
    by (simp add: dnsify_step_def isalnum_def islower_def isdigit_def)
  from dnsify_separator_hyphen [OF sep(1), of "[]" "[]"]
    dnsify_separator_hyphen [OF sep(2), of "''a''" "''b''"]
    dnsify_separator_hyphen [OF sep(3), of "replicate 62 (CHR ''a'')" "[]"] b
  show ?thesis
    by simp
qed

section \<open>The container descriptor builder\<close>

text \<open>
  C8. For limits with the CPU quantity \<open>1\<close> and the memory quantity \<open>1Gi\<close> and requests
  with nothing set, whatever the image, command, arguments, data loading configuration
  and environment are, \<open>_get_container_definition\<close> returns a container whose limits are
  exactly two entries, the CPU entry before the memory entry, and whose requests are
  empty.
\<close>

theorem get_container_definition_cpu_mem:
  "map_sum id (\<lambda>c. (tr_limits (c_resources c), tr_requests (c_resources c)))
     (get_container_definition image'
        \<lparr>spec_requests = \<lparr>cpu = None, mem = None, gpu = None, ephemeral_storage = None\<rparr>,
         spec_limits = \<lparr>cpu = Some (One ''1''), mem = Some (One ''1Gi''), gpu = None,
                        ephemeral_storage = None\<rparr>\<rparr>
        command args data_loading_config environment)
   = Inr ([\<lparr>re_name = CPU, re_value = ''1''\<rparr>, \<lparr>re_name = MEMORY, re_value = ''1Gi''\<rparr>], [])"
  by (simp add: get_container_definition_def check_resource_is_singular_def entries_of_def)

section \<open>The pod-spec serializer: lemmas about the store\<close>

lemma lookup_append_old: "a < length h \<Longrightarrow> lookup (h @ ext) a = lookup h a"
  by (simp add: lookup_def nth_append)

lemma get_container_append_old: "a < length h \<Longrightarrow> get_container (h @ ext) a = get_container h a"
  by (simp add: get_container_def lookup_append_old)

lemma get_container_Some_less: "get_container h a = Some c \<Longrightarrow> a < length h"
  by (simp add: get_container_def lookup_def split: if_splits)

lemma get_container_Some_nth: "get_container h a = Some c \<Longrightarrow> h ! a = V1Container c"
  by (auto simp add: get_container_def lookup_def split: if_splits obj.splits)

lemma get_container_nth: "a < length h \<Longrightarrow> h ! a = V1Container c \<Longrightarrow> get_container h a = Some c"
  by (simp add: get_container_def lookup_def)

lemma copy_containers_spec:
  "copy_containers h memo as = Some (h', memo', bs) \<Longrightarrow> memo_inv n h memo \<Longrightarrow> n \<le> length h \<Longrightarrow>
   (\<exists>ext. h' = h @ ext) \<and> memo_inv n h' memo' \<and>
   (\<forall>a b. map_of memo a = Some b \<longrightarrow> map_of memo' a = Some b) \<and>
   length bs = length as \<and>
   (\<forall>i < length as. map_of memo' (as ! i) = Some (bs ! i))"
proof (induction as arbitrary: h memo bs)
  case Nil
  then show ?case by simp
next
  case (Cons a as)
  show ?case
  proof (cases "map_of memo a")
    case (Some b)
    with Cons.prems(1) obtain bs' where
      rec: "copy_containers h memo as = Some (h', memo', bs')" and bs: "bs = b # bs'"
      by (auto split: option.splits)
    from Cons.IH [OF rec Cons.prems(2,3)] have
      ih: "(\<exists>ext. h' = h @ ext)" "memo_inv n h' memo'"
        "\<forall>a b. map_of memo a = Some b \<longrightarrow> map_of memo' a = Some b"
        "length bs' = length as" "\<forall>i < length as. map_of memo' (as ! i) = Some (bs' ! i)"
      by blast+
    have "\<forall>i < length (a # as). map_of memo' ((a # as) ! i) = Some (bs ! i)"
      using ih(3,5) Some bs by (auto simp: nth_Cons split: nat.splits)
    with ih bs show ?thesis by simp
  next
    case None
    with Cons.prems(1) obtain ob bs' where
      ob: "lookup h a = Some ob" and
      rec: "copy_containers (h @ [ob]) ((a, length h) # memo) as = Some (h', memo', bs')"
      and bs: "bs = length h # bs'"
      by (auto split: option.splits)
    have a_less: "a < length h" and ha: "h ! a = ob"
      using ob by (simp_all add: lookup_def split: if_splits)
    have inv': "memo_inv n (h @ [ob]) ((a, length h) # memo)"
      using Cons.prems(2,3) a_less ha
      by (fastforce simp: memo_inv_def nth_append)
    have len': "n \<le> length (h @ [ob])"
      using Cons.prems(3) by simp
    from Cons.IH [OF rec inv' len'] have
      ih: "(\<exists>ext. h' = (h @ [ob]) @ ext)" "memo_inv n h' memo'"
        "\<forall>x b. map_of ((a, length h) # memo) x = Some b \<longrightarrow> map_of memo' x = Some b"
        "length bs' = length as" "\<forall>i < length as. map_of memo' (as ! i) = Some (bs' ! i)"
      by blast+
    have ext: "\<exists>ext. h' = h @ ext"
      using ih(1) by auto
    have mono: "\<forall>x b. map_of memo x = Some b \<longrightarrow> map_of memo' x = Some b"
      using ih(3) None by (metis map_of_Cons_code(2) option.distinct(1))
    have hd: "map_of memo' a = Some (length h)"
      using ih(3) by simp
    have "\<forall>i < length (a # as). map_of memo' ((a # as) ! i) = Some (bs ! i)"
      using ih(5) hd bs by (auto simp: nth_Cons split: nat.splits)
    with ext ih(2,4) mono bs show ?thesis by simp
  qed
qed

lemma get_list_nth: "a < length h \<Longrightarrow> h ! a = PyList xs \<Longrightarrow> get_list h a = Some xs"
  by (simp add: get_list_def lookup_def)

lemma get_list_Some_less: "get_list h a = Some xs \<Longrightarrow> a < length h"
  by (simp add: get_list_def lookup_def split: if_splits)

lemma get_list_Some_nth: "get_list h a = Some xs \<Longrightarrow> h ! a = PyList xs"
  by (auto simp add: get_list_def lookup_def split: if_splits obj.splits)

lemma get_container_update_other:
  "a \<noteq> b \<Longrightarrow> get_container (h[b := x]) a = get_container h a"
  by (simp add: get_container_def lookup_def)

lemma get_list_update_other:
  "a \<noteq> b \<Longrightarrow> get_list (h[b := x]) a = get_list h a"
  by (simp add: get_list_def lookup_def)

lemma merge_loop_length:
  "length (fst (merge_loop resolve settings pc nm final as h)) = length h"
  by (induction as arbitrary: h) (auto split: option.splits sum.splits)

lemma merge_loop_other:
  "a \<notin> set as \<Longrightarrow> a \<noteq> final \<Longrightarrow>
   fst (merge_loop resolve settings pc nm final as h) ! a = h ! a"
  by (induction as arbitrary: h) (auto split: option.splits sum.splits)

lemma merge_loop_frame:
  "\<forall>a \<in> set as. n \<le> a \<Longrightarrow> n \<le> final \<Longrightarrow>
   take n (fst (merge_loop resolve settings pc nm final as h)) = take n h"
  by (induction as arbitrary: h) (auto split: option.splits sum.splits)

lemma merge_loop_Cons_Inr:
  "merge_loop resolve settings pc nm final (a # as) h = (h', Inr u) \<Longrightarrow>
   \<exists>c c' fs. get_container h a = Some c \<and> merge_container resolve settings pc nm c = Inr c' \<and>
     get_list (h[a := V1Container c']) final = Some fs \<and>
     merge_loop resolve settings pc nm final as
       (h[a := V1Container c', final := PyList (fs @ [a])]) = (h', Inr u)"
  by (simp split: option.splits sum.splits)

lemma merge_loop_final:
  "merge_loop resolve settings pc nm final as h = (h', Inr u) \<Longrightarrow>
   get_list h final = Some fs \<Longrightarrow> final \<notin> set as \<Longrightarrow>
   get_list h' final = Some (fs @ as)"
proof (induction as arbitrary: h fs)
  case Nil
  then show ?case by simp
next
  case (Cons a as)
  from Cons.prems(3) have ne: "final \<noteq> a" and notin: "final \<notin> set as"
    by auto
  from merge_loop_Cons_Inr [OF Cons.prems(1)] obtain c c' fs' where
    c: "get_container h a = Some c" and
    fs': "get_list (h[a := V1Container c']) final = Some fs'" and
    rec: "merge_loop resolve settings pc nm final as
            (h[a := V1Container c', final := PyList (fs' @ [a])]) = (h', Inr u)"
    by blast
  have "fs' = fs"
    using Cons.prems(2) ne fs' by (simp add: get_list_update_other)
  have "final < length h"
    using Cons.prems(2) by (rule get_list_Some_less)
  then have "get_list (h[a := V1Container c', final := PyList (fs @ [a])]) final = Some (fs @ [a])"
    by (simp add: get_list_nth)
  from Cons.IH [OF rec [unfolded \<open>fs' = fs\<close>] this notin] show ?case
    by simp
qed


lemma merge_loop_at:
  "merge_loop resolve settings pc nm final as h = (h', Inr u) \<Longrightarrow>
   i < length as \<Longrightarrow> as ! i \<notin> set (take i as) \<Longrightarrow> as ! i \<notin> set (drop (Suc i) as) \<Longrightarrow>
   final \<notin> set as \<Longrightarrow> get_container h (as ! i) = Some c \<Longrightarrow>
   \<exists>c'. merge_container resolve settings pc nm c = Inr c' \<and> get_container h' (as ! i) = Some c'"
proof (induction as arbitrary: h i)
  case Nil
  then show ?case by simp
next
  case (Cons a as)
  from Cons.prems(5) have ne: "final \<noteq> a" and notin: "final \<notin> set as"
    by auto
  from merge_loop_Cons_Inr [OF Cons.prems(1)] obtain d d' fs where
    d: "get_container h a = Some d" and
    m: "merge_container resolve settings pc nm d = Inr d'" and
    rec: "merge_loop resolve settings pc nm final as
            (h[a := V1Container d', final := PyList (fs @ [a])]) = (h', Inr u)"
    by blast
  have a_less: "a < length h"
    using d by (rule get_container_Some_less)
  show ?case
  proof (cases i)
    case 0
    then have a: "a \<notin> set as" and dc: "d = c"
      using Cons.prems(4,6) d by simp_all
    have "fst (merge_loop resolve settings pc nm final as
            (h[a := V1Container d', final := PyList (fs @ [a])])) ! a
          = (h[a := V1Container d', final := PyList (fs @ [a])]) ! a"
      using a ne by (intro merge_loop_other) auto
    then have "h' ! a = (h[a := V1Container d', final := PyList (fs @ [a])]) ! a"
      using rec by simp
    also have "\<dots> = V1Container d'"
      using ne a_less by simp
    finally have nth: "h' ! a = V1Container d'" .
    have "length (fst (merge_loop resolve settings pc nm final as
            (h[a := V1Container d', final := PyList (fs @ [a])]))) = length h"
      by (simp add: merge_loop_length)
    then have "a < length h'"
      using rec a_less by simp
    with nth have "get_container h' a = Some d'"
      by (simp add: get_container_nth)
    then show ?thesis
      using 0 m dc by simp
  next
    case (Suc j)
    then have j: "j < length as" and neq: "as ! j \<noteq> a"
      and t: "as ! j \<notin> set (take j as)" and dr: "as ! j \<notin> set (drop (Suc j) as)"
      using Cons.prems(2,3,4) by auto
    have fin: "as ! j \<noteq> final"
      using notin j by (metis nth_mem)
    have "get_container (h[a := V1Container d', final := PyList (fs @ [a])]) (as ! j) = Some c"
      using Cons.prems(6) Suc neq fin by (simp add: get_container_update_other)
    from Cons.IH [OF rec j t dr notin this] show ?thesis
      using Suc by simp
  qed
qed

lemma distinct_snd_inj:
  "distinct (map snd xs) \<Longrightarrow> (a1, b) \<in> set xs \<Longrightarrow> (a2, b) \<in> set xs \<Longrightarrow> a1 = a2"
  by (induction xs) force+

lemma memo_inv_Nil: "memo_inv n h []"
  by (simp add: memo_inv_def)

lemma copy_containers_result:
  assumes "copy_containers h [] as = Some (h', memo', bs)"
  shows "\<exists>ext. h' = h @ ext"
    and "length bs = length as"
    and "\<And>i. i < length as \<Longrightarrow> as ! i < bs ! i \<and> length h \<le> bs ! i \<and> bs ! i < length h' \<and> h' ! (bs ! i) = h' ! (as ! i)"
    and "\<And>i j. i < length as \<Longrightarrow> j < length as \<Longrightarrow> bs ! i = bs ! j \<Longrightarrow> as ! i = as ! j"
proof -
  from copy_containers_spec [OF assms memo_inv_Nil, of "length h"] have
    ext: "\<exists>ext. h' = h @ ext" and inv: "memo_inv (length h) h' memo'" and
    len: "length bs = length as" and
    memo: "\<forall>i < length as. map_of memo' (as ! i) = Some (bs ! i)"
    by simp_all
  show "\<exists>ext. h' = h @ ext" by (rule ext)
  show "length bs = length as" by (rule len)
  have mem: "(as ! i, bs ! i) \<in> set memo'" if "i < length as" for i
    using memo that by (simp add: map_of_SomeD)
  show "as ! i < bs ! i \<and> length h \<le> bs ! i \<and> bs ! i < length h' \<and> h' ! (bs ! i) = h' ! (as ! i)"
    if "i < length as" for i
    using mem [OF that] inv by (auto simp: memo_inv_def)
  show "as ! i = as ! j" if "i < length as" "j < length as" "bs ! i = bs ! j" for i j
  proof -
    have "(as ! i, bs ! i) \<in> set memo'" "(as ! j, bs ! i) \<in> set memo'"
      using mem [OF that(1)] mem [OF that(2)] that(3) by simp_all
    moreover have "distinct (map snd memo')"
      using inv by (simp add: memo_inv_def)
    ultimately show ?thesis
      by (rule distinct_snd_inj [rotated])
  qed
qed

lemma deepcopy_result:
  "deepcopy h t = Inr (H, T) \<Longrightarrow>
   \<exists>ps nm l as h1 memo bs.
     get_template h t = Some (Some ps, nm) \<and> get_pod_spec h ps = Some l \<and>
     get_list h l = Some as \<and> copy_containers h [] as = Some (h1, memo, bs) \<and>
     H = h1 @ [PyList bs, V1PodSpec (length h1), PodTemplate (Some (length h1 + 1)) nm] \<and>
     T = length h1 + 2"
  by (auto simp: deepcopy_def split: option.splits prod.splits)

lemma get_template_nth:
  "a < length h \<Longrightarrow> h ! a = PodTemplate ps nm \<Longrightarrow> get_template h a = Some (ps, nm)"
  by (simp add: get_template_def lookup_def)

lemma get_pod_spec_nth:
  "a < length h \<Longrightarrow> h ! a = V1PodSpec l \<Longrightarrow> get_pod_spec h a = Some l"
  by (simp add: get_pod_spec_def lookup_def)

lemma get_pod_spec_Some_less: "get_pod_spec h a = Some l \<Longrightarrow> a < length h"
  by (simp add: get_pod_spec_def lookup_def split: if_splits)

lemma get_pod_spec_Some_nth: "get_pod_spec h a = Some l \<Longrightarrow> h ! a = V1PodSpec l"
  by (auto simp add: get_pod_spec_def lookup_def split: if_splits obj.splits)

lemma copy_shape:
  fixes h1 :: store
  defines "L \<equiv> length h1"
  shows "get_template (h1 @ [PyList bs, V1PodSpec L, PodTemplate (Some (L + 1)) nm]) (L + 2)
           = Some (Some (L + 1), nm)"
    and "get_pod_spec (h1 @ [PyList bs, V1PodSpec L, PodTemplate (Some (L + 1)) nm]) (L + 1) = Some L"
    and "get_list (h1 @ [PyList bs, V1PodSpec L, PodTemplate (Some (L + 1)) nm]) L = Some bs"
  by (simp_all add: L_def get_template_def get_pod_spec_def get_list_def lookup_def nth_append)

lemma serialize_copy_found:
  assumes "get_template H T = Some (Some PS, nm)" "get_pod_spec H PS = Some L"
    "get_list H L = Some bs" "primary_exists H nm bs = Some True"
  shows "serialize_copy resolve settings pc H T =
     (case merge_loop resolve settings pc nm (length H) bs (H @ [PyList []]) of
        (h3, Inl e) \<Rightarrow> (h3, Inl e)
      | (h3, Inr u) \<Rightarrow>
          (h3[PS := V1PodSpec (length H)],
           sanitize_for_serialization (h3[PS := V1PodSpec (length H)]) PS))"
  using assms by (simp add: serialize_copy_def Let_def)

lemma serialize_copy_missing:
  assumes "get_template H T = Some (Some PS, nm)" "get_pod_spec H PS = Some L"
    "get_list H L = Some bs" "primary_exists H nm bs = Some False"
  shows "serialize_copy resolve settings pc H T =
     (case merge_loop resolve settings pc nm (Suc (length H)) (bs @ [length H])
             (H[L := PyList (bs @ [length H])] @ [V1Container (placeholder nm), PyList []]) of
        (h3, Inl e) \<Rightarrow> (h3, Inl e)
      | (h3, Inr u) \<Rightarrow>
          (h3[PS := V1PodSpec (Suc (length H))],
           sanitize_for_serialization (h3[PS := V1PodSpec (Suc (length H))]) PS))"
  using assms by (simp add: serialize_copy_def Let_def)

lemma serialize_copy_none:
  assumes "get_template H T = Some (Some PS, nm)" "get_pod_spec H PS = Some L"
    "get_list H L = Some bs" "primary_exists H nm bs = None"
  shows "serialize_copy resolve settings pc H T = (H, Inl AttributeError)"
  using assms by (simp add: serialize_copy_def)

lemma serialize_copy_frame:
  assumes shape: "get_template H T = Some (Some PS, nm)" "get_pod_spec H PS = Some L"
    "get_list H L = Some bs"
    and n: "n \<le> PS" "n \<le> L" "\<forall>b \<in> set bs. n \<le> b" "n \<le> length H"
  shows "take n (fst (serialize_copy resolve settings pc H T)) = take n H"
proof (cases "primary_exists H nm bs")
  case None
  then show ?thesis
    using shape by (simp add: serialize_copy_none)
next
  case (Some found)
  show ?thesis
  proof (cases found)
    case True
    obtain h3 r where
      loop: "merge_loop resolve settings pc nm (length H) bs (H @ [PyList []]) = (h3, r)"
      by (cases "merge_loop resolve settings pc nm (length H) bs (H @ [PyList []])")
    have "take n (fst (merge_loop resolve settings pc nm (length H) bs (H @ [PyList []])))
            = take n (H @ [PyList []])"
      using n by (intro merge_loop_frame) auto
    then have h3: "take n h3 = take n H"
      using loop n by simp
    show ?thesis
      using shape Some True loop h3 n
      by (cases r) (simp_all add: serialize_copy_found)
  next
    case False
    let ?h2 = "H[L := PyList (bs @ [length H])] @ [V1Container (placeholder nm), PyList []]"
    obtain h3 r where
      loop: "merge_loop resolve settings pc nm (Suc (length H)) (bs @ [length H]) ?h2 = (h3, r)"
      by (cases "merge_loop resolve settings pc nm (Suc (length H)) (bs @ [length H]) ?h2")
    have "take n (fst (merge_loop resolve settings pc nm (Suc (length H)) (bs @ [length H]) ?h2))
            = take n ?h2"
      using n by (intro merge_loop_frame) auto
    then have h3: "take n h3 = take n H"
      using loop n by simp
    show ?thesis
      using shape Some False loop h3 n
      by (cases r) (simp_all add: serialize_copy_missing)
  qed
qed

lemma serialize_pod_spec_frame:
  fixes resolve :: "string option \<Rightarrow> 'cfg \<Rightarrow> 'e + string"
  shows "take (length h) (fst (serialize_pod_spec resolve h t pc settings)) = h"
proof (cases "get_template h t")
  case None
  then show ?thesis by (simp add: serialize_pod_spec_def)
next
  case (Some tm)
  obtain pso nm where tm: "tm = (pso, nm)" by (cases tm)
  show ?thesis
  proof (cases pso)
    case None
    then show ?thesis using Some tm by (simp add: serialize_pod_spec_def)
  next
    case (Some ps)
    show ?thesis
    proof (cases "deepcopy h t :: 'e failure + store \<times> addr")
      case (Inl e)
      then show ?thesis
        using \<open>get_template h t = Some tm\<close> tm Some by (simp add: serialize_pod_spec_def)
    next
      case (Inr HT)
      obtain H T where HT: "HT = (H, T)" by (cases HT)
      from deepcopy_result [OF Inr [unfolded HT]] obtain ps' nm' l as h1 memo bs where
        cp: "copy_containers h [] as = Some (h1, memo, bs)" and
        H: "H = h1 @ [PyList bs, V1PodSpec (length h1), PodTemplate (Some (length h1 + 1)) nm']" and
        T: "T = length h1 + 2"
        by blast
      from copy_containers_result [OF cp] obtain ext where
        ext: "h1 = h @ ext" and len: "length bs = length as" and
        rng: "\<And>i. i < length as \<Longrightarrow> length h \<le> bs ! i"
        by blast
      have bs: "\<forall>b \<in> set bs. length h \<le> b"
        using rng len by (auto simp: in_set_conv_nth)
      have "take (length h) (fst (serialize_copy resolve settings pc H T)) = take (length h) H"
        unfolding H T
        by (rule serialize_copy_frame [OF copy_shape]) (use bs ext in auto)
      also have "\<dots> = h"
        using H ext by simp
      finally show ?thesis
        using \<open>get_template h t = Some tm\<close> tm \<open>pso = Some ps\<close> Inr HT
        by (simp add: serialize_pod_spec_def)
    qed
  qed
qed

lemma get_containers_spec:
  "get_containers h as = Some cs \<Longrightarrow>
   length cs = length as \<and> (\<forall>i < length as. get_container h (as ! i) = Some (cs ! i))"
proof (induction as arbitrary: cs)
  case Nil
  then show ?case by simp
next
  case (Cons a as)
  from Cons.prems obtain c cs' where
    c: "get_container h a = Some c" and cs': "get_containers h as = Some cs'" and
    cs: "cs = c # cs'"
    by (auto split: option.splits)
  from Cons.IH [OF cs'] c cs show ?case
    by (auto simp: nth_Cons split: nat.splits)
qed

lemma sanitize_for_serialization_Inr:
  "sanitize_for_serialization h ps = (Inr out :: 'e failure + json) \<Longrightarrow>
   get_pod_spec h ps = Some l \<Longrightarrow> get_list h l = Some as \<Longrightarrow>
   \<exists>cs. get_containers h as = Some cs \<and>
        out = JDict [(''containers'', JList (map sanitize_container cs))]"
  by (auto simp: sanitize_for_serialization_def split: option.splits)

lemma output_containers_sanitized:
  "output_containers (JDict [(''containers'', JList (map sanitize_container cs))])
     = map sanitize_container cs"
  by (simp add: output_containers_def)

lemma json_lookup_name:
  "json_lookup (sanitize_container c) ''name'' = Some (JStr (vc_name c))"
  by (cases "vc_args c"; cases "vc_command c"; cases "vc_env c"; cases "vc_image c";
      cases "vc_resources c") (simp_all add: sanitize_container_def)

lemma json_lookup_image:
  "json_lookup (sanitize_container c) ''image'' = map_option JStr (vc_image c)"
  by (cases "vc_args c"; cases "vc_command c"; cases "vc_env c"; cases "vc_image c";
      cases "vc_resources c") (simp_all add: sanitize_container_def)

lemma merge_container_declared:
  "merge_container resolve settings pc nm c = Inr c' \<Longrightarrow> vc_name c = nm \<Longrightarrow>
   vc_image c = Some img \<Longrightarrow>
   vc_name c' = nm \<and> (\<exists>r. resolve (Some img) (image_config settings) = Inr r \<and> vc_image c' = Some r)"
  by (auto simp: merge_container_def Let_def split: sum.splits option.splits if_splits)

lemma merge_container_undeclared:
  "vc_name c = nm \<Longrightarrow> vc_image c = None \<Longrightarrow>
   \<exists>c'. merge_container resolve settings pc nm c = Inr c' \<and> vc_name c' = nm \<and>
        vc_image c' = Some (c_image pc)"
  by (auto simp: merge_container_def Let_def split: sum.splits option.splits if_splits)

lemma primary_exists_False:
  "primary_exists h nm as = Some False \<Longrightarrow> i < length as \<Longrightarrow>
   \<exists>c. get_container h (as ! i) = Some c \<and> vc_name c \<noteq> nm"
proof (induction as arbitrary: i)
  case Nil
  then show ?case by simp
next
  case (Cons a as)
  from Cons.prems(1) obtain c where
    c: "get_container h a = Some c" "vc_name c \<noteq> nm" and
    rest: "primary_exists h nm as = Some False"
    by (auto split: option.splits if_splits)
  show ?case
  proof (cases i)
    case 0
    with c show ?thesis by simp
  next
    case (Suc j)
    with Cons.IH [OF rest, of j] Cons.prems(2) show ?thesis by simp
  qed
qed

lemma primary_exists_cong:
  "length bs = length as \<Longrightarrow>
   (\<And>i. i < length as \<Longrightarrow> get_container H (bs ! i) = get_container h (as ! i)) \<Longrightarrow>
   primary_exists H nm bs = primary_exists h nm as"
proof (induction as arbitrary: bs)
  case Nil
  then show ?case by simp
next
  case (Cons a as)
  from Cons.prems(1) obtain b bs' where bs: "bs = b # bs'" and len: "length bs' = length as"
    by (cases bs) auto
  have hd: "get_container H b = get_container h a"
    using Cons.prems(2) [of 0] bs by simp
  have "primary_exists H nm bs' = primary_exists h nm as"
  proof (rule Cons.IH [OF len])
    fix i assume "i < length as"
    then show "get_container H (bs' ! i) = get_container h (as ! i)"
      using Cons.prems(2) [of "Suc i"] bs by simp
  qed
  with hd bs show ?case by (simp split: option.splits)
qed

lemma once_take_drop:
  assumes "i < length xs" and once: "\<forall>j < length xs. xs ! j = xs ! i \<longrightarrow> j = i"
  shows "xs ! i \<notin> set (take i xs) \<and> xs ! i \<notin> set (drop (Suc i) xs)"
proof
  show "xs ! i \<notin> set (take i xs)"
  proof
    assume "xs ! i \<in> set (take i xs)"
    then obtain j where "j < length (take i xs)" "take i xs ! j = xs ! i"
      by (auto simp: in_set_conv_nth)
    then have "j < i" "j < length xs" "xs ! j = xs ! i"
      using assms(1) by simp_all
    with once show False by auto
  qed
  show "xs ! i \<notin> set (drop (Suc i) xs)"
  proof
    assume "xs ! i \<in> set (drop (Suc i) xs)"
    then obtain k where "k < length (drop (Suc i) xs)" "drop (Suc i) xs ! k = xs ! i"
      by (auto simp: in_set_conv_nth)
    then have "Suc i + k < length xs" "xs ! (Suc i + k) = xs ! i"
      by simp_all
    with once show False by auto
  qed
qed

lemma get_pod_spec_update_other:
  "a \<noteq> b \<Longrightarrow> get_pod_spec (h[b := x]) a = get_pod_spec h a"
  by (simp add: get_pod_spec_def lookup_def)

lemma serialize_copy_found_result:
  fixes resolve :: "string option \<Rightarrow> 'cfg \<Rightarrow> 'e + string"
  assumes shape: "get_template H T = Some (Some PS, nm)" "get_pod_spec H PS = Some L"
      "get_list H L = Some bs"
    and pe: "primary_exists H nm bs = Some True"
    and res: "serialize_copy resolve settings pc H T = (h', Inr out)"
    and bsr: "\<forall>b \<in> set bs. b < length H \<and> b \<noteq> PS"
  shows "\<exists>cs. out = JDict [(''containers'', JList (map sanitize_container cs))] \<and>
           length cs = length bs \<and>
           (\<forall>i < length bs. (\<forall>j < length bs. bs ! j = bs ! i \<longrightarrow> j = i) \<longrightarrow>
              (\<forall>c. get_container H (bs ! i) = Some c \<longrightarrow>
                 merge_container resolve settings pc nm c = Inr (cs ! i)))"
proof -
  let ?h2 = "H @ [PyList []]"
  obtain h3 r where loop: "merge_loop resolve settings pc nm (length H) bs ?h2 = (h3, r)"
    by (cases "merge_loop resolve settings pc nm (length H) bs ?h2")
  from res have eq: "(case (h3, r) of
        (h3, Inl e) \<Rightarrow> (h3, Inl e)
      | (h3, Inr u) \<Rightarrow>
          (h3[PS := V1PodSpec (length H)],
           sanitize_for_serialization (h3[PS := V1PodSpec (length H)]) PS)) = (h', Inr out)"
    unfolding serialize_copy_found [OF shape pe] loop .
  then obtain u where r: "r = Inr u"
    by (cases r) auto
  from eq r have h': "h' = h3[PS := V1PodSpec (length H)]"
    and san: "sanitize_for_serialization h' PS = (Inr out :: 'e failure + json)"
    by auto
  have PS: "PS < length H"
    using shape(2) by (rule get_pod_spec_Some_less)
  have len3: "length h3 = Suc (length H)"
    using merge_loop_length [of resolve settings pc nm "length H" bs ?h2] loop by simp
  have fin: "length H \<notin> set bs"
    using bsr by auto
  have "get_list ?h2 (length H) = Some []"
    by (simp add: get_list_def lookup_def)
  from merge_loop_final [OF loop [unfolded r] this fin]
  have l3: "get_list h3 (length H) = Some bs"
    by simp
  have ps': "get_pod_spec h' PS = Some (length H)"
    unfolding h' using PS len3 by (simp add: get_pod_spec_nth)
  have l': "get_list h' (length H) = Some bs"
    unfolding h' using l3 PS by (simp add: get_list_update_other)
  from sanitize_for_serialization_Inr [OF san ps' l'] obtain cs where
    cs: "get_containers h' bs = Some cs" and
    out: "out = JDict [(''containers'', JList (map sanitize_container cs))]"
    by blast
  from get_containers_spec [OF cs] have
    lcs: "length cs = length bs" and
    nth: "\<forall>i < length bs. get_container h' (bs ! i) = Some (cs ! i)"
    by simp_all
  have "merge_container resolve settings pc nm c = Inr (cs ! i)"
    if i: "i < length bs" and once: "\<forall>j < length bs. bs ! j = bs ! i \<longrightarrow> j = i"
      and c: "get_container H (bs ! i) = Some c" for i c
  proof -
    from once_take_drop [OF i once] have
      t: "bs ! i \<notin> set (take i bs)" and d: "bs ! i \<notin> set (drop (Suc i) bs)"
      by simp_all
    have "bs ! i \<in> set bs"
      using i by simp
    with bsr have less: "bs ! i < length H" and ne: "bs ! i \<noteq> PS"
      by blast+
    have "get_container ?h2 (bs ! i) = Some c"
      using c less by (simp add: get_container_append_old)
    from merge_loop_at [OF loop [unfolded r] i t d fin this] obtain c' where
      m: "merge_container resolve settings pc nm c = Inr c'" and
      g: "get_container h3 (bs ! i) = Some c'"
      by blast
    have "get_container h' (bs ! i) = Some c'"
      unfolding h' using g ne by (simp add: get_container_update_other)
    with nth i have "cs ! i = c'"
      by simp
    with m show ?thesis by simp
  qed
  with out lcs show ?thesis
    by blast
qed

lemma serialize_copy_missing_result:
  fixes resolve :: "string option \<Rightarrow> 'cfg \<Rightarrow> 'e + string"
  assumes shape: "get_template H T = Some (Some PS, nm)" "get_pod_spec H PS = Some L"
      "get_list H L = Some bs"
    and pe: "primary_exists H nm bs = Some False"
    and res: "serialize_copy resolve settings pc H T = (h', Inr out)"
  shows "\<exists>cs c'. out = JDict [(''containers'', JList (map sanitize_container (cs @ [c'])))] \<and>
           length cs = length bs \<and> vc_name c' = nm \<and> vc_image c' = Some (c_image pc)"
proof -
  let ?p = "length H"
  let ?final = "Suc (length H)"
  let ?h2 = "H[L := PyList (bs @ [?p])] @ [V1Container (placeholder nm), PyList []]"
  obtain h3 r where loop: "merge_loop resolve settings pc nm ?final (bs @ [?p]) ?h2 = (h3, r)"
    by (cases "merge_loop resolve settings pc nm ?final (bs @ [?p]) ?h2")
  from res have eq: "(case (h3, r) of
        (h3, Inl e) \<Rightarrow> (h3, Inl e)
      | (h3, Inr u) \<Rightarrow>
          (h3[PS := V1PodSpec ?final],
           sanitize_for_serialization (h3[PS := V1PodSpec ?final]) PS)) = (h', Inr out)"
    unfolding serialize_copy_missing [OF shape pe] loop .
  then obtain u where r: "r = Inr u"
    by (cases r) auto
  from eq r have h': "h' = h3[PS := V1PodSpec ?final]"
    and san: "sanitize_for_serialization h' PS = (Inr out :: 'e failure + json)"
    by auto
  have PS: "PS < length H"
    using shape(2) by (rule get_pod_spec_Some_less)
  have bs_less: "\<forall>b \<in> set bs. b < length H"
  proof
    fix b assume "b \<in> set bs"
    then obtain i where "i < length bs" "bs ! i = b"
      by (auto simp: in_set_conv_nth)
    with primary_exists_False [OF pe, of i] show "b < length H"
      by (auto dest: get_container_Some_less)
  qed
  have len3: "length h3 = Suc (Suc (length H))"
    using merge_loop_length [of resolve settings pc nm ?final "bs @ [?p]" ?h2] loop by simp
  have fin: "?final \<notin> set (bs @ [?p])"
    using bs_less by auto
  have "get_list ?h2 ?final = Some []"
    by (simp add: get_list_def lookup_def nth_append)
  from merge_loop_final [OF loop [unfolded r] this fin]
  have l3: "get_list h3 ?final = Some (bs @ [?p])"
    by simp
  have ps': "get_pod_spec h' PS = Some ?final"
    unfolding h' using PS len3 by (simp add: get_pod_spec_nth)
  have l': "get_list h' ?final = Some (bs @ [?p])"
    unfolding h' using l3 PS by (simp add: get_list_update_other)
  from sanitize_for_serialization_Inr [OF san ps' l'] obtain cs' where
    cs': "get_containers h' (bs @ [?p]) = Some cs'" and
    out: "out = JDict [(''containers'', JList (map sanitize_container cs'))]"
    by blast
  from get_containers_spec [OF cs'] have
    lcs: "length cs' = Suc (length bs)" and
    nth: "\<forall>i < Suc (length bs). get_container h' ((bs @ [?p]) ! i) = Some (cs' ! i)"
    by simp_all
  have i: "length bs < length (bs @ [?p])"
    by simp
  have t: "(bs @ [?p]) ! length bs \<notin> set (take (length bs) (bs @ [?p]))"
    and d: "(bs @ [?p]) ! length bs \<notin> set (drop (Suc (length bs)) (bs @ [?p]))"
    using bs_less by auto
  have "get_container ?h2 ((bs @ [?p]) ! length bs) = Some (placeholder nm)"
    by (simp add: get_container_def lookup_def nth_append)
  from merge_loop_at [OF loop [unfolded r] i t d fin this] obtain c' where
    m: "merge_container resolve settings pc nm (placeholder nm) = Inr c'" and
    g: "get_container h3 ?p = Some c'"
    by auto
  from merge_container_undeclared [of "placeholder nm" nm resolve settings pc] m
  have c': "vc_name c' = nm" "vc_image c' = Some (c_image pc)"
    by (simp_all add: placeholder_def)
  have "get_container h' ?p = Some c'"
    unfolding h' using g PS by (simp add: get_container_update_other)
  with nth have last: "cs' ! length bs = c'"
    by (auto simp: nth_append dest: spec [of _ "length bs"])
  have "cs' = take (length bs) cs' @ [c']"
    using lcs last by (metis lessI take_Suc_conv_app_nth take_all order_refl)
  moreover have "length (take (length bs) cs') = length bs"
    using lcs by simp
  ultimately show ?thesis
    using out c' by metis
qed

lemma serialize_pod_spec_Inr:
  fixes resolve :: "string option \<Rightarrow> 'cfg \<Rightarrow> 'e + string"
  assumes "get_template h t = Some (Some ps, nm)" "get_pod_spec h ps = Some l"
    "get_list h l = Some as"
    and res: "serialize_pod_spec resolve h t pc settings = (h', Inr out)"
  shows "\<exists>h1 memo bs. copy_containers h [] as = Some (h1, memo, bs) \<and>
     serialize_copy resolve settings pc
       (h1 @ [PyList bs, V1PodSpec (length h1), PodTemplate (Some (length h1 + 1)) nm])
       (length h1 + 2) = (h', Inr out)"
proof (cases "deepcopy h t :: 'e failure + store \<times> addr")
  case (Inl e)
  with assms show ?thesis
    by (simp add: serialize_pod_spec_def)
next
  case (Inr HT)
  obtain H T where HT: "HT = (H, T)" by (cases HT)
  from deepcopy_result [OF Inr [unfolded HT]] assms(1-3) obtain h1 memo bs where
    "copy_containers h [] as = Some (h1, memo, bs)"
    "H = h1 @ [PyList bs, V1PodSpec (length h1), PodTemplate (Some (length h1 + 1)) nm]"
    "T = length h1 + 2"
    by auto
  moreover have "serialize_copy resolve settings pc H T = (h', Inr out)"
    using res assms(1) Inr HT by (simp add: serialize_pod_spec_def)
  ultimately show ?thesis
    by blast
qed

lemma copied_container:
  assumes cp: "copy_containers h [] as = Some (h1, memo, bs)"
    and i: "i < length as" and c: "get_container h (as ! i) = Some c"
  shows "get_container (h1 @ ext') (bs ! i) = Some c"
proof -
  from copy_containers_result [OF cp] obtain ext where
    ext: "h1 = h @ ext" and
    rng: "bs ! i < length h1" "h1 ! (bs ! i) = h1 ! (as ! i)"
    using i by blast
  have "as ! i < length h" "h ! (as ! i) = V1Container c"
    using c by (simp_all add: get_container_Some_less get_container_Some_nth)
  then have "h1 ! (bs ! i) = V1Container c"
    using rng(2) ext by (simp add: nth_append)
  with rng(1) have "get_container h1 (bs ! i) = Some c"
    by (simp add: get_container_nth)
  with rng(1) show ?thesis
    by (simp add: get_container_append_old)
qed

lemma declared_image:
  fixes resolve :: "string option \<Rightarrow> 'cfg \<Rightarrow> 'e + string"
  assumes shape: "get_template h t = Some (Some ps, nm)" "get_pod_spec h ps = Some l"
      "get_list h l = Some as"
    and i: "i < length as"
    and c: "get_container h (as ! i) = Some c" "vc_name c = nm" "vc_image c = Some img"
    and once: "\<forall>j < length as. as ! j = as ! i \<longrightarrow> j = i"
    and res: "serialize_pod_spec resolve h t pc settings = (h', Inr out)"
  shows "\<exists>r. resolve (Some img) (image_config settings) = Inr r \<and>
           i < length (output_containers out) \<and>
           json_lookup (output_containers out ! i) ''name'' = Some (JStr nm) \<and>
           json_lookup (output_containers out ! i) ''image'' = Some (JStr r)"
proof -
  from serialize_pod_spec_Inr [OF shape res] obtain h1 memo bs where
    cp: "copy_containers h [] as = Some (h1, memo, bs)" and
    sc: "serialize_copy resolve settings pc
           (h1 @ [PyList bs, V1PodSpec (length h1), PodTemplate (Some (length h1 + 1)) nm])
           (length h1 + 2) = (h', Inr out)"
    by blast
  let ?H = "h1 @ [PyList bs, V1PodSpec (length h1), PodTemplate (Some (length h1 + 1)) nm]"
  note sh = copy_shape [of h1 bs nm]
  from copy_containers_result [OF cp] have
    len: "length bs = length as" and
    rng: "\<And>j. j < length as \<Longrightarrow> bs ! j < length h1" and
    inj: "\<And>j k. j < length as \<Longrightarrow> k < length as \<Longrightarrow> bs ! j = bs ! k \<Longrightarrow> as ! j = as ! k"
    by blast+
  have ci: "get_container ?H (bs ! i) = Some c"
    using cp i c(1) by (rule copied_container)
  have pe: "primary_exists ?H nm bs = Some True"
  proof (cases "primary_exists ?H nm bs")
    case None
    have eq: "serialize_copy resolve settings pc ?H (length h1 + 2) = (?H, Inl AttributeError)"
      using sh None by (rule serialize_copy_none)
    have "(?H, Inl AttributeError) = (h', (Inr out :: 'e failure + json))"
      unfolding eq [symmetric] by (rule sc)
    then show ?thesis
      by simp
  next
    case (Some found)
    show ?thesis
    proof (cases found)
      case True
      with Some show ?thesis by simp
    next
      case False
      with Some have "primary_exists ?H nm bs = Some False"
        by simp
      moreover have "i < length bs"
        using i len by simp
      ultimately obtain c0 where "get_container ?H (bs ! i) = Some c0" "vc_name c0 \<noteq> nm"
        using primary_exists_False by blast
      with ci c(2) show ?thesis
        by simp
    qed
  qed
  have bsr: "\<forall>b \<in> set bs. b < length ?H \<and> b \<noteq> length h1 + 1"
  proof
    fix b assume "b \<in> set bs"
    then obtain j where "j < length bs" "bs ! j = b"
      by (auto simp: in_set_conv_nth)
    with rng [of j] len have "b < length h1"
      by simp
    then show "b < length ?H \<and> b \<noteq> length h1 + 1"
      by simp
  qed
  have once': "\<forall>j < length bs. bs ! j = bs ! i \<longrightarrow> j = i"
  proof (intro allI impI)
    fix j assume j: "j < length bs" "bs ! j = bs ! i"
    then have "as ! j = as ! i"
      using inj [of j i] i len by simp
    with once j(1) len show "j = i"
      by simp
  qed
  from serialize_copy_found_result [OF sh pe sc bsr] obtain cs where
    out: "out = JDict [(''containers'', JList (map sanitize_container cs))]" and
    lcs: "length cs = length bs" and
    all: "\<forall>i < length bs. (\<forall>j < length bs. bs ! j = bs ! i \<longrightarrow> j = i) \<longrightarrow>
              (\<forall>c. get_container ?H (bs ! i) = Some c \<longrightarrow>
                 merge_container resolve settings pc nm c = Inr (cs ! i))"
    by blast
  have ib: "i < length bs"
    using i len by simp
  have m: "merge_container resolve settings pc nm c = Inr (cs ! i)"
    by (rule all [rule_format, OF ib once' [rule_format] ci])
  from merge_container_declared [OF m c(2,3)] obtain r where
    r: "resolve (Some img) (image_config settings) = Inr r"
      "vc_name (cs ! i) = nm" "vc_image (cs ! i) = Some r"
    by blast
  have oc: "output_containers out = map sanitize_container cs"
    unfolding out by (rule output_containers_sanitized)
  have nth: "output_containers out ! i = sanitize_container (cs ! i)"
    unfolding oc using lcs ib by simp
  have lo: "i < length (output_containers out)"
    unfolding oc using lcs ib by simp
  have "json_lookup (output_containers out ! i) ''name'' = Some (JStr nm)"
    unfolding nth using r(2) by (simp add: json_lookup_name)
  moreover have "json_lookup (output_containers out ! i) ''image'' = Some (JStr r)"
    unfolding nth using r(3) by (simp add: json_lookup_image)
  ultimately show ?thesis
    using r(1) lo by blast
qed

lemma primary_exists_none_named:
  "get_containers h as = Some cs \<Longrightarrow> \<forall>c \<in> set cs. vc_name c \<noteq> nm \<Longrightarrow>
   primary_exists h nm as = Some False"
  by (induction as arbitrary: cs) (auto split: option.splits)

lemma placeholder_image:
  fixes resolve :: "string option \<Rightarrow> 'cfg \<Rightarrow> 'e + string"
  assumes shape: "get_template h t = Some (Some ps, nm)" "get_pod_spec h ps = Some l"
      "get_list h l = Some as"
    and cs: "get_containers h as = Some cs" "\<forall>c \<in> set cs. vc_name c \<noteq> nm"
    and res: "serialize_pod_spec resolve h t pc settings = (h', Inr out)"
  shows "length (output_containers out) = Suc (length as) \<and>
         json_lookup (output_containers out ! length as) ''name'' = Some (JStr nm) \<and>
         json_lookup (output_containers out ! length as) ''image'' = Some (JStr (c_image pc))"
proof -
  from serialize_pod_spec_Inr [OF shape res] obtain h1 memo bs where
    cp: "copy_containers h [] as = Some (h1, memo, bs)" and
    sc: "serialize_copy resolve settings pc
           (h1 @ [PyList bs, V1PodSpec (length h1), PodTemplate (Some (length h1 + 1)) nm])
           (length h1 + 2) = (h', Inr out)"
    by blast
  let ?H = "h1 @ [PyList bs, V1PodSpec (length h1), PodTemplate (Some (length h1 + 1)) nm]"
  note sh = copy_shape [of h1 bs nm]
  from copy_containers_result [OF cp] have len: "length bs = length as"
    by blast
  have same: "get_container ?H (bs ! i) = get_container h (as ! i)" if "i < length as" for i
  proof -
    from get_containers_spec [OF cs(1)] that have "get_container h (as ! i) = Some (cs ! i)"
      by simp
    with copied_container [OF cp that this] show ?thesis
      by simp
  qed
  have "primary_exists ?H nm bs = primary_exists h nm as"
    using len same by (rule primary_exists_cong)
  then have pe: "primary_exists ?H nm bs = Some False"
    using primary_exists_none_named [OF cs] by simp
  from serialize_copy_missing_result [OF sh pe sc] obtain ds c' where
    out: "out = JDict [(''containers'', JList (map sanitize_container (ds @ [c'])))]" and
    lds: "length ds = length bs" and
    c': "vc_name c' = nm" "vc_image c' = Some (c_image pc)"
    by blast
  have "output_containers out = map sanitize_container ds @ [sanitize_container c']"
    using out by (simp add: output_containers_def)
  then show ?thesis
    using lds len c' by (simp add: nth_append json_lookup_name json_lookup_image)
qed

lemma serialize_pod_spec_None:
  "get_template h t = Some (None, nm) \<Longrightarrow>
   serialize_pod_spec resolve h t pc settings = (h, Inr (JDict []))"
  by (simp add: serialize_pod_spec_def)

section \<open>The pod-spec serializer: the claims\<close>

lemmas example_defs = example_store_def example_container_def example_sidecar_def
  example_primary_def example_resolve_def example_settings_def

lemmas store_defs = get_template_def get_pod_spec_def get_list_def get_container_def lookup_def

text \<open>
  C5. Let the template at \<open>t\<close> have a pod spec whose container list holds at position
  \<open>i\<close> a container named \<open>primary_container_name\<close> that declares the image \<open>img\<close>, and
  let the list hold this container object at no other position (as it does when it is
  the only container of that name). If \<open>_serialize_pod_spec\<close> returns, then the image
  resolution succeeded on \<open>img\<close>, and the container at position \<open>i\<close> of the output has
  that name and the resolved image. The resolved image is the same whatever the
  computed primary container is: the image of the computed container is not used.
\<close>

theorem serialize_pod_spec_declared_image:
  fixes resolve :: "string option \<Rightarrow> 'cfg \<Rightarrow> 'e + string" and pc :: "'d container"
  assumes "get_template h t = Some (Some ps, nm)" "get_pod_spec h ps = Some l"
      "get_list h l = Some as"
    and "i < length as"
    and "get_container h (as ! i) = Some c" "vc_name c = nm" "vc_image c = Some img"
    and "\<forall>j < length as. as ! j = as ! i \<longrightarrow> j = i"
    and "serialize_pod_spec resolve h t pc settings = (h', Inr out)"
  shows "\<exists>r. resolve (Some img) (image_config settings) = Inr r \<and>
           i < length (output_containers out) \<and>
           json_lookup (output_containers out ! i) ''name'' = Some (JStr nm) \<and>
           json_lookup (output_containers out ! i) ''image'' = Some (JStr r) \<and>
           (\<forall>(pc' :: 'd container) h'' out'.
              serialize_pod_spec resolve h t pc' settings = (h'', Inr out') \<longrightarrow>
              json_lookup (output_containers out' ! i) ''image'' = Some (JStr r))"
proof -
  from declared_image [OF assms] obtain r where
    r: "resolve (Some img) (image_config settings) = Inr r"
      "i < length (output_containers out)"
      "json_lookup (output_containers out ! i) ''name'' = Some (JStr nm)"
      "json_lookup (output_containers out ! i) ''image'' = Some (JStr r)"
    by blast
  have "json_lookup (output_containers out' ! i) ''image'' = Some (JStr r)"
    if "serialize_pod_spec resolve h t pc' settings = (h'', Inr out')"
    for pc' :: "'d container" and h'' out'
  proof -
    from declared_image [OF assms(1-8) that] obtain r' where
      "resolve (Some img) (image_config settings) = Inr r'"
      "json_lookup (output_containers out' ! i) ''image'' = Some (JStr r')"
      by blast
    with r(1) show ?thesis
      by simp
  qed
  with r show ?thesis
    by blast
qed

theorem serialize_pod_spec_declared_image_witness:
  "\<exists>h' out.
     serialize_pod_spec example_resolve example_store 3 example_primary example_settings
       = (h', Inr out) \<and>
     json_lookup (output_containers out ! 0) ''name'' = Some (JStr ''primary'') \<and>
     json_lookup (output_containers out ! 0) ''image'' = Some (JStr ''registry/img'')"
proof -
  have "\<exists>h' out. serialize_pod_spec example_resolve example_store 3 example_primary
          example_settings = (h', Inr out)"
    by (simp add: example_defs store_defs serialize_pod_spec_def deepcopy_def
        serialize_copy_def merge_container_def sanitize_for_serialization_def placeholder_def
        Let_def)
  then obtain h' out where
    res: "serialize_pod_spec example_resolve example_store 3 example_primary
            example_settings = (h', Inr out)"
    by blast
  have shape: "get_template example_store 3 = Some (Some 2, ''primary'')"
    "get_pod_spec example_store 2 = Some 1" "get_list example_store 1 = Some [0]"
    by (simp_all add: example_defs store_defs)
  have c: "get_container example_store ([0] ! 0) = Some example_container"
    "vc_name example_container = ''primary''" "vc_image example_container = Some ''img''"
    by (simp_all add: example_defs store_defs)
  have i: "0 < length [0::nat]" and once: "\<forall>j < length [0::nat]. [0::nat] ! j = [0] ! 0 \<longrightarrow> j = 0"
    by simp_all
  from serialize_pod_spec_declared_image [OF shape i c once res] obtain r where
    "example_resolve (Some ''img'') (image_config example_settings) = Inr r"
    "json_lookup (output_containers out ! 0) ''name'' = Some (JStr ''primary'')"
    "json_lookup (output_containers out ! 0) ''image'' = Some (JStr r)"
    by blast
  moreover have "example_resolve (Some ''img'') (image_config example_settings)
      = Inr ''registry/img''"
    by (simp add: example_defs)
  ultimately show ?thesis
    using res by auto
qed

text \<open>
  C6. When the template has no pod spec, \<open>_serialize_pod_spec\<close> returns the empty mapping,
  whatever the primary container, the settings and the image resolution are; the store
  is the one it was called in.
\<close>

theorem serialize_pod_spec_no_pod_spec:
  "get_template h t = Some (None, nm) \<Longrightarrow>
   serialize_pod_spec resolve h t pc settings = (h, Inr (JDict []))"
  by (simp add: serialize_pod_spec_def)

theorem serialize_pod_spec_no_pod_spec_witness:
  "get_template example_store 8 = Some (None, ''primary'') \<and>
   serialize_pod_spec example_resolve example_store 8 example_primary example_settings
     = (example_store, Inr (JDict []))"
proof -
  have t: "get_template example_store 8 = Some (None, ''primary'')"
    by (simp add: example_defs store_defs)
  from serialize_pod_spec_no_pod_spec [OF t] t show ?thesis
    by simp
qed

text \<open>
  C7. Every object that exists when \<open>_serialize_pod_spec\<close> is called (the caller's
  template, its pod spec, the list of its containers, the containers, and any other
  object of the store) is, after the call, what it was before: the store after the
  call is the store before it, followed by the objects allocated during the call. This
  holds for every store and template, also when the call raises.
\<close>

theorem serialize_pod_spec_leaves_store:
  "take (length h) (fst (serialize_pod_spec resolve h t pc settings)) = h"
  by (rule serialize_pod_spec_frame)

theorem serialize_pod_spec_leaves_store_witness:
  "take 9 (fst (serialize_pod_spec example_resolve example_store 3 example_primary
      example_settings)) = example_store \<and>
   length (fst (serialize_pod_spec example_resolve example_store 3 example_primary
      example_settings)) = 14"
proof -
  have "length example_store = 9"
    by (simp add: example_store_def)
  with serialize_pod_spec_leaves_store [of example_store example_resolve 3 example_primary
      example_settings]
  have "take 9 (fst (serialize_pod_spec example_resolve example_store 3 example_primary
      example_settings)) = example_store"
    by simp
  moreover have "length (fst (serialize_pod_spec example_resolve example_store 3
      example_primary example_settings)) = 14"
    by (simp add: example_defs store_defs serialize_pod_spec_def deepcopy_def
        serialize_copy_def merge_container_def sanitize_for_serialization_def placeholder_def
        Let_def)
  ultimately show ?thesis
    by simp
qed

text \<open>
  C10. Let the template at \<open>t\<close> have a pod spec whose list holds the containers \<open>cs\<close>,
  none of them named \<open>primary_container_name\<close>. If \<open>_serialize_pod_spec\<close> returns, the
  output has one container more than the template, and this last container has the
  name \<open>primary_container_name\<close> and the image of the computed primary container.
\<close>

theorem serialize_pod_spec_placeholder_image:
  fixes resolve :: "string option \<Rightarrow> 'cfg \<Rightarrow> 'e + string"
  assumes "get_template h t = Some (Some ps, nm)" "get_pod_spec h ps = Some l"
      "get_list h l = Some as"
    and "get_containers h as = Some cs" "\<forall>c \<in> set cs. vc_name c \<noteq> nm"
    and "serialize_pod_spec resolve h t pc settings = (h', Inr out)"
  shows "length (output_containers out) = Suc (length as) \<and>
         json_lookup (output_containers out ! length as) ''name'' = Some (JStr nm) \<and>
         json_lookup (output_containers out ! length as) ''image'' = Some (JStr (c_image pc))"
  using assms by (rule placeholder_image)

theorem serialize_pod_spec_placeholder_image_witness:
  "\<exists>h' out.
     serialize_pod_spec example_resolve example_store 7 example_primary example_settings
       = (h', Inr out) \<and>
     length (output_containers out) = 2 \<and>
     json_lookup (output_containers out ! 1) ''name'' = Some (JStr ''primary'') \<and>
     json_lookup (output_containers out ! 1) ''image'' = Some (JStr ''computed'')"
proof -
  have "\<exists>h' out. serialize_pod_spec example_resolve example_store 7 example_primary
          example_settings = (h', Inr out)"
    by (simp add: example_defs store_defs serialize_pod_spec_def deepcopy_def
        serialize_copy_def merge_container_def sanitize_for_serialization_def placeholder_def
        Let_def)
  then obtain h' out where
    res: "serialize_pod_spec example_resolve example_store 7 example_primary
            example_settings = (h', Inr out)"
    by blast
  have shape: "get_template example_store 7 = Some (Some 6, ''primary'')"
    "get_pod_spec example_store 6 = Some 5" "get_list example_store 5 = Some [4]"
    by (simp_all add: example_defs store_defs)
  have cs: "get_containers example_store [4] = Some [example_sidecar]"
    "\<forall>c \<in> set [example_sidecar]. vc_name c \<noteq> ''primary''"
    by (simp_all add: example_defs store_defs)
  from serialize_pod_spec_placeholder_image [OF shape cs res] res show ?thesis
    by (auto simp: example_primary_def)
qed

section \<open>The timing context manager: the record of a scope\<close>

lemma timeit_exit_set:
  "start_wall_time self = Some sw \<Longrightarrow> start_process_time self = Some sp \<Longrightarrow>
   timeit_exit self exc w =
     (Inr False,
      w\<lparr>timeline_deck := timeline_deck w @
           [\<lparr>Name = name self, Start = start_time self, Finish = clock_now w,
             WallTime = clock_perf_counter w - sw,
             ProcessTime = clock_process_time w - sp\<rparr>],
        logger_info := logger_info w @ [(name self, clock_perf_counter w - sw)]\<rparr>)"
  by (simp add: timeit_exit_def append_time_info_def Let_def)

text \<open>
  The scope hands on the object as the wrapped code left it, so wrapped code that is
  itself such a scope leaves the readings set whenever its own body does.
\<close>

lemma timeit_with_object:
  "fst (snd (timeit_with body (self, w))) = fst (snd (body (timeit_enter self w, w)))"
  by (auto simp: timeit_with_def split: prod.splits sum.splits)

text \<open>
  C9, as stated, fails: for the wrapped block that sets a start reading of the object to
  \<open>None\<close> and raises, \<open>__exit__\<close> raises \<open>TypeError\<close> in place of the block's exception
  and the time line gets no record.
\<close>

theorem timeit_reset_counterexample:
  "fst (timeit_with example_resetting (timeit_init ''t'', example_world)) = Inl TypeError \<and>
   timeline_deck (snd (snd (timeit_with example_resetting (timeit_init ''t'', example_world))))
     = []"
  by (simp add: timeit_with_def timeit_exit_def timeit_enter_def timeit_init_def
      example_resetting_def example_world_def)

text \<open>
  C9, amended. Let the wrapped code, run from the state in which the scope is entered,
  end with the result \<open>r\<close> and leave the start readings of the object set (as all code
  does that does not assign \<open>None\<close> to them; nested and recursive scopes on the same
  object included). Then the scope returns what the wrapped code returned, or raises
  the exception it raised, unchanged; and the time line after the scope is the time
  line the wrapped code left, followed by exactly one record, also when the wrapped
  code raised. The record holds the readings of the object as the wrapped code left
  them. A decorated function is the same scope around the call of the function.
\<close>

theorem timeit_one_record:
  fixes body :: "('d, 't::minus) timeit \<times> ('d, 't) world \<Rightarrow>
      ('x failure + 'a) \<times> ('d, 't) timeit \<times> ('d, 't) world"
  assumes "body (timeit_enter self w, w) = (r, self', w')"
    and "start_wall_time self' = Some sw" "start_process_time self' = Some sp"
  shows "fst (timeit_with body (self, w)) = propagated r \<and>
     timeline_deck (snd (snd (timeit_with body (self, w)))) =
       timeline_deck w' @
         [\<lparr>Name = name self', Start = start_time self', Finish = clock_now w',
           WallTime = clock_perf_counter w' - sw,
           ProcessTime = clock_process_time w' - sp\<rparr>] \<and>
     length (timeline_deck (snd (snd (timeit_with body (self, w))))) =
       Suc (length (timeline_deck w')) \<and>
     timeit_call func args' (self, w) = timeit_with (func args') (self, w)"
  using assms
  by (cases r) (simp_all add: timeit_with_def timeit_call_def timeit_exit_set)

theorem timeit_one_record_witness:
  "fst (timeit_with example_recursive (timeit_init ''t'', example_world)) = Inl (Raised ''boom'') \<and>
   timeline_deck (snd (snd (timeit_with example_recursive (timeit_init ''t'', example_world)))) =
     [\<lparr>Name = ''t'', Start = Some 1, Finish = 5, WallTime = 6, ProcessTime = 0\<rparr>,
      \<lparr>Name = ''t'', Start = Some 1, Finish = 5, WallTime = 6, ProcessTime = 0\<rparr>]"
proof -
  have body: "example_recursive (timeit_enter (timeit_init ''t'') example_world, example_world) =
      (Inl (Raised ''boom''),
       \<lparr>name = ''t'', start_time = Some 1, start_wall_time = Some 11,
        start_process_time = Some 3\<rparr>,
       \<lparr>clock_now = 5, clock_perf_counter = 17, clock_process_time = 3,
        timeline_deck =
          [\<lparr>Name = ''t'', Start = Some 1, Finish = 5, WallTime = 6, ProcessTime = 0\<rparr>],
        logger_info = [(''t'', 6)]\<rparr>)"
    by (simp add: example_recursive_def example_failing_def timeit_with_def timeit_exit_def
        timeit_enter_def timeit_init_def example_world_def append_time_info_def Let_def)
  from timeit_one_record [where body = example_recursive and self = "timeit_init ''t''"
      and w = example_world and sw = 11 and sp = 3 and func = "\<lambda>u. example_failing"
      and args' = "()", OF body]
  show ?thesis
    by simp
qed

end
